theory Spec2Isabelle
  imports
    Complex_Main
    "HOL-Library.Char_ord"
    "HOL-Library.List_Lexorder"
    "HOL-Library.Product_Lexorder"
    "HOL-Library.Log_Nat"
begin

section \<open>Python strings\<close>

text \<open>
  A Python \<open>str\<close> is modelled as an Isabelle \<open>string\<close>: a list of characters whose
  code points lie below 256. Within that range \<open>\d\<close> matches exactly the ten ASCII
  digits, and the characters that \<open>str.split()\<close> treats as white space are the
  code points 9 to 13, 28 to 32, 133 and 160.
\<close>

definition is_digit :: "char \<Rightarrow> bool" where
  "is_digit c = (c \<in> set ''0123456789'')"

definition is_space :: "char \<Rightarrow> bool" where
  "is_space c =
     (let n = (of_char c :: nat)
      in (9 \<le> n \<and> n \<le> 13) \<or> (28 \<le> n \<and> n \<le> 32) \<or> n = 133 \<or> n = 160)"

text \<open>\<open>s.startswith(p)\<close>.\<close>

fun startswith :: "string \<Rightarrow> string \<Rightarrow> bool" where
  "startswith [] s = True"
| "startswith (p # ps) [] = False"
| "startswith (p # ps) (c # cs) = (p = c \<and> startswith ps cs)"

text \<open>
  \<open>s.split(sep, 1)\<close> for a separator that occurs in \<open>s\<close>: the text before the first
  occurrence and the text after it. \<open>None\<close> is the case \<open>sep not in s\<close>.
\<close>

fun split_first :: "string \<Rightarrow> string \<Rightarrow> (string \<times> string) option" where
  "split_first sep [] = (if sep = [] then Some ([], []) else None)"
| "split_first sep (c # cs) =
     (if startswith sep (c # cs) then Some ([], drop (length sep) (c # cs))
      else map_option (\<lambda>(a, b). (c # a, b)) (split_first sep cs))"

text \<open>\<open>sub in s\<close>.\<close>

definition contains :: "string \<Rightarrow> string \<Rightarrow> bool" where
  "contains sub s = (split_first sub s \<noteq> None)"

text \<open>\<open>s.strip(chars)\<close>: every leading and every trailing character of \<open>chars\<close> goes.\<close>

definition py_strip :: "string \<Rightarrow> string \<Rightarrow> string" where
  "py_strip chars s =
     rev (dropWhile (\<lambda>c. c \<in> set chars) (rev (dropWhile (\<lambda>c. c \<in> set chars) s)))"

text \<open>\<open>s.split()\<close>: the maximal runs of characters that are not white space.\<close>

fun split_ws_aux :: "string \<Rightarrow> string \<Rightarrow> string list" where
  "split_ws_aux cur [] = (if cur = [] then [] else [cur])"
| "split_ws_aux cur (c # cs) =
     (if is_space c then (if cur = [] then split_ws_aux [] cs else cur # split_ws_aux [] cs)
      else split_ws_aux (cur @ [c]) cs)"

definition py_split :: "string \<Rightarrow> string list" where
  "py_split s = split_ws_aux [] s"

text \<open>\<open>int(s)\<close> for a string of ASCII digits, and \<open>str(n)\<close> for a natural number.\<close>

definition digit_val :: "char \<Rightarrow> nat" where
  "digit_val c = of_char c - 48"

definition int_of_digits :: "string \<Rightarrow> nat" where
  "int_of_digits s = foldl (\<lambda>n c. 10 * n + digit_val c) 0 s"

fun str_of_nat :: "nat \<Rightarrow> string" where
  "str_of_nat n =
     (if n < 10 then [char_of (48 + n)]
      else str_of_nat (n div 10) @ [char_of (48 + n mod 10)])"

section \<open>The parser (preprocessor.py)\<close>

subsection \<open>The timestamp prefix\<close>

text \<open>
  The pattern \<open>(\d{1,2}/\d{1,2}/\d{2}, \d{1,2}:\d{2} - )\<close> as a sequence of items, and a
  matcher that tries the longer digit run first and backtracks, as \<open>re\<close> does. The
  matcher returns the text after the match.
\<close>

datatype re_item = Digits12 | Digits2 | Lit string

fun re_match :: "re_item list \<Rightarrow> string \<Rightarrow> string option" where
  "re_match [] s = Some s"
| "re_match (Lit l # its) s =
     (if startswith l s then re_match its (drop (length l) s) else None)"
| "re_match (Digits2 # its) s =
     (case s of
        a # b # r \<Rightarrow> if is_digit a \<and> is_digit b then re_match its r else None
      | _ \<Rightarrow> None)"
| "re_match (Digits12 # its) s =
     (case s of
        [] \<Rightarrow> None
      | a # r \<Rightarrow>
          if \<not> is_digit a then None
          else (case r of
                  [] \<Rightarrow> re_match its r
                | b # r' \<Rightarrow>
                    if is_digit b
                    then (case re_match its r' of Some t \<Rightarrow> Some t | None \<Rightarrow> re_match its r)
                    else re_match its r))"

definition pattern :: "re_item list" where
  "pattern =
     [Digits12, Lit ''/'', Digits12, Lit ''/'', Digits2, Lit '', '', Digits12, Lit '':'',
      Digits2, Lit '' - '']"

text \<open>
  \<open>re.split(pattern, raw_data)\<close> with one capture group: the text before the first
  match, then for each match the matched prefix and the text up to the next match.
\<close>

function re_split_aux :: "string \<Rightarrow> string \<Rightarrow> string list" where
  "re_split_aux cur [] = [cur]"
| "re_split_aux cur (c # cs) =
     (case re_match pattern (c # cs) of
        Some rest \<Rightarrow>
          cur # take (length (c # cs) - length rest) (c # cs) #
            re_split_aux [] (drop (length (c # cs) - length rest) (c # cs))
      | None \<Rightarrow> re_split_aux (cur @ [c]) cs)"
  by pat_completeness auto
termination
proof (relation "measure (\<lambda>(cur, s). length s)")
  show "wf (measure (\<lambda>(cur, s). length s))" by simp
next
  fix cur :: string and c cs rest
  assume m: "re_match pattern (c # cs) = Some rest"
  have le: "re_match its s = Some r \<Longrightarrow> length r \<le> length s" for its s r
  proof (induction its s arbitrary: r rule: re_match.induct)
    case (1 s) then show ?case by simp
  next
    case (2 l its s) then show ?case by (fastforce split: if_splits)
  next
    case (3 its s) then show ?case by (fastforce split: list.splits if_splits)
  next
    case (4 its s) then show ?case
      by (fastforce split: list.splits if_splits option.splits)
  qed
  have lt: "re_match (Digits12 # its) s = Some r \<Longrightarrow> length r < length s" for its s r
    by (auto split: list.splits if_splits option.splits dest!: le)
  have "length rest < length (c # cs)"
    using m unfolding pattern_def by (rule lt)
  then show "((([], drop (length (c # cs) - length rest) (c # cs))), (cur, c # cs))
      \<in> measure (\<lambda>(cur, s). length s)" by simp
next
  fix cur :: string and c cs
  show "((cur @ [c], cs), (cur, c # cs)) \<in> measure (\<lambda>(cur, s). length s)" by simp
qed

definition re_split :: "string \<Rightarrow> string list" where
  "re_split s = re_split_aux [] s"

subsection \<open>Timestamps\<close>

text \<open>
  The value of \<open>pd.to_datetime(..., format='%d/%m/%y, %H:%M', errors='coerce')\<close> on one
  string: \<open>None\<close> is \<open>NaT\<close>. Each directive takes a run of one or two digits in its range
  (\<open>%y\<close> exactly two digits, 00 to 68 in the 2000s and 69 to 99 in the 1900s), the whole
  string has to match, and the day has to exist in its month.
\<close>

record timestamp =
  ts_year :: nat
  ts_month :: nat
  ts_day :: nat
  ts_hour :: nat
  ts_minute :: nat

definition is_leap :: "nat \<Rightarrow> bool" where
  "is_leap y = (y mod 4 = 0 \<and> (y mod 100 \<noteq> 0 \<or> y mod 400 = 0))"

definition days_in_month :: "nat \<Rightarrow> nat \<Rightarrow> nat" where
  "days_in_month y m =
     (if m = 2 then (if is_leap y then 29 else 28)
      else if m \<in> {4, 6, 9, 11} then 30 else 31)"

definition num_field :: "nat \<Rightarrow> nat \<Rightarrow> string \<Rightarrow> nat option" where
  "num_field lo hi s =
     (if s \<noteq> [] \<and> length s \<le> 2 \<and> list_all is_digit s
         \<and> lo \<le> int_of_digits s \<and> int_of_digits s \<le> hi
      then Some (int_of_digits s) else None)"

definition year_field :: "string \<Rightarrow> nat option" where
  "year_field s =
     (if length s = 2 \<and> list_all is_digit s
      then Some (if int_of_digits s \<le> 68 then 2000 + int_of_digits s
                 else 1900 + int_of_digits s)
      else None)"

definition to_datetime :: "string \<Rightarrow> timestamp option" where
  "to_datetime s =
     (case split_first ''/'' s of None \<Rightarrow> None | Some (ds, r1) \<Rightarrow>
      case split_first ''/'' r1 of None \<Rightarrow> None | Some (ms, r2) \<Rightarrow>
      case split_first '', '' r2 of None \<Rightarrow> None | Some (ys, r3) \<Rightarrow>
      case split_first '':'' r3 of None \<Rightarrow> None | Some (hs, mins) \<Rightarrow>
      case num_field 1 31 ds of None \<Rightarrow> None | Some d \<Rightarrow>
      case num_field 1 12 ms of None \<Rightarrow> None | Some m \<Rightarrow>
      case year_field ys of None \<Rightarrow> None | Some y \<Rightarrow>
      case num_field 0 23 hs of None \<Rightarrow> None | Some h \<Rightarrow>
      case num_field 0 59 mins of None \<Rightarrow> None | Some mi \<Rightarrow>
        if d \<le> days_in_month y m
        then Some \<lparr>ts_year = y, ts_month = m, ts_day = d, ts_hour = h, ts_minute = mi\<rparr>
        else None)"

text \<open>
  \<open>dt.month_name()\<close> and \<open>dt.day_name()\<close>. The day of the week is that of the proleptic
  Gregorian ordinal of the date, Monday first.
\<close>

definition month_names :: "string list" where
  "month_names =
     [''January'', ''February'', ''March'', ''April'', ''May'', ''June'', ''July'',
      ''August'', ''September'', ''October'', ''November'', ''December'']"

definition weekdays :: "string list" where
  "weekdays =
     [''Monday'', ''Tuesday'', ''Wednesday'', ''Thursday'', ''Friday'', ''Saturday'',
      ''Sunday'']"

definition days_before_year :: "nat \<Rightarrow> nat" where
  "days_before_year y =
     (y - 1) * 365 + (y - 1) div 4 + (y - 1) div 400 - (y - 1) div 100"

definition days_before_month :: "nat \<Rightarrow> nat \<Rightarrow> nat" where
  "days_before_month y m =
     [0, 31, 59, 90, 120, 151, 181, 212, 243, 273, 304, 334] ! (m - 1)
       + (if 2 < m \<and> is_leap y then 1 else 0)"

definition toordinal :: "timestamp \<Rightarrow> nat" where
  "toordinal ts =
     days_before_year (ts_year ts) + days_before_month (ts_year ts) (ts_month ts) + ts_day ts"

definition month_name :: "timestamp \<Rightarrow> string" where
  "month_name ts = month_names ! (ts_month ts - 1)"

definition day_name :: "timestamp \<Rightarrow> string" where
  "day_name ts = weekdays ! ((toordinal ts + 6) mod 7)"

subsection \<open>Records\<close>

text \<open>One row of the DataFrame that \<open>preprocess\<close> returns, column by column.\<close>

record chat_record =
  message_date :: timestamp
  user :: string
  message :: string
  year :: nat
  month :: string
  month_num :: nat
  day :: nat
  hour :: nat
  minute :: nat
  weekday :: string
  only_date :: "nat \<times> nat \<times> nat"

text \<open>\<open>xs[0::2]\<close>; \<open>xs[1::2]\<close> is \<open>slice2 (tl xs)\<close>.\<close>

fun slice2 :: "'a list \<Rightarrow> 'a list" where
  "slice2 [] = []"
| "slice2 [x] = [x]"
| "slice2 (x # y # zs) = x # slice2 zs"

text \<open>Lines 27 to 30: the sender and the text of a message body.\<close>

definition split_user_message :: "string \<Rightarrow> string \<times> string" where
  "split_user_message message_str =
     (case split_first '': '' message_str of
        Some (u, m) \<Rightarrow> (u, m)
      | None \<Rightarrow> (''group_notification'', message_str))"

text \<open>Lines 18 to 32: the (prefix, body) pairs of the split, and the loop over them.\<close>

definition prefix_body_pairs :: "string \<Rightarrow> (string \<times> string) list" where
  "prefix_body_pairs raw_data =
     (let parts = tl (re_split raw_data) in zip (slice2 parts) (slice2 (tl parts)))"

definition make_record :: "string \<times> string \<Rightarrow> string \<times> string \<times> string" where
  "make_record p =
     (let date_str = py_strip '' -'' (fst p);
          message_str = py_strip ''\<newline>'' (snd p);
          (u, m) = split_user_message message_str
      in (date_str, u, m))"

definition raw_records :: "string \<Rightarrow> (string \<times> string \<times> string) list" where
  "raw_records raw_data = map make_record (prefix_body_pairs raw_data)"

text \<open>Lines 50 to 57: the columns derived from the timestamp.\<close>

definition add_features :: "timestamp \<Rightarrow> string \<Rightarrow> string \<Rightarrow> chat_record" where
  "add_features ts u m =
     \<lparr>message_date = ts, user = u, message = m,
      year = ts_year ts, month = month_name ts, month_num = ts_month ts, day = ts_day ts,
      hour = ts_hour ts, minute = ts_minute ts, weekday = day_name ts,
      only_date = (ts_year ts, ts_month ts, ts_day ts)\<rparr>"

text \<open>
  Lines 35 to 59: the dates are parsed, the rows whose date is \<open>NaT\<close> are dropped, the
  others keep their order and get the derived columns.
\<close>

definition preprocess :: "string \<Rightarrow> chat_record list" where
  "preprocess raw_data =
     List.map_filter
       (\<lambda>(date_str, u, m). map_option (\<lambda>ts. add_features ts u m) (to_datetime date_str))
       (raw_records raw_data)"

section \<open>The aggregation views (helper.py)\<close>

text \<open>
  Every view starts with the same two lines: unless \<open>selected_user\<close> is the literal
  \<open>'Overall'\<close>, only the rows of that sender are kept.
\<close>

definition select_user :: "string \<Rightarrow> chat_record list \<Rightarrow> chat_record list" where
  "select_user selected_user df =
     (if selected_user \<noteq> ''Overall'' then filter (\<lambda>r. user r = selected_user) df else df)"

subsection \<open>Counting\<close>

text \<open>
  \<open>collections.Counter(xs)\<close>: the distinct elements in the order of their first
  occurrence, each with the number of its occurrences.
\<close>

fun bump :: "'a \<Rightarrow> ('a \<times> nat) list \<Rightarrow> ('a \<times> nat) list" where
  "bump k [] = [(k, 1)]"
| "bump k (p # ps) = (if fst p = k then (fst p, Suc (snd p)) # ps else p # bump k ps)"

definition Counter :: "'a list \<Rightarrow> ('a \<times> nat) list" where
  "Counter xs = foldl (\<lambda>m k. bump k m) [] xs"

text \<open>
  Sorting by count, the largest first. The sort is stable; \<open>Counter.most_common\<close> is,
  while pandas leaves the order among equal counts open.
\<close>

definition sort_desc :: "('a \<times> nat) list \<Rightarrow> ('a \<times> nat) list" where
  "sort_desc ps = sort_key (\<lambda>p. - int (snd p)) ps"

definition most_common :: "nat \<Rightarrow> ('a \<times> nat) list \<Rightarrow> ('a \<times> nat) list" where
  "most_common n ps = take n (sort_desc ps)"

text \<open>\<open>Series.value_counts()\<close>.\<close>

definition value_counts :: "'a list \<Rightarrow> ('a \<times> nat) list" where
  "value_counts xs = sort_desc (Counter xs)"

text \<open>\<open>groupby(key)['message'].count().reset_index()\<close>: one row per key, keys ascending.\<close>

definition groupby_count :: "('r \<Rightarrow> 'k::linorder) \<Rightarrow> 'r list \<Rightarrow> ('k \<times> nat) list" where
  "groupby_count key data =
     map (\<lambda>k. (k, length (filter (\<lambda>r. key r = k) data))) (sort (remdups (map key data)))"

subsection \<open>fetch_stats\<close>

text \<open>
  The URL extractor is a third-party object; its method \<open>find_urls\<close> is a parameter of
  the model.

  The word count and the link count are \<open>data['message'].apply(...).sum()\<close>. On a
  selection with rows the lambda yields integers and the sum is their total. On a
  selection without rows \<open>apply\<close> hands back an empty column of the dtype of \<open>message\<close>,
  and \<open>sum()\<close> of an empty column is 0 for the dtype \<open>object\<close> and the empty string for
  the dtype \<open>str\<close>. The dtype belongs to the table: pandas infers \<open>str\<close> from the values
  when the table is built from at least one record, and a table built from no record
  has \<open>object\<close>; dropping and filtering rows keep it.
\<close>

datatype dtype = object_dtype | str_dtype

datatype series_sum = Count nat | EmptyString

definition apply_sum :: "dtype \<Rightarrow> ('r \<Rightarrow> nat) \<Rightarrow> 'r list \<Rightarrow> series_sum" where
  "apply_sum dt f data =
     (if data = [] \<and> dt = str_dtype then EmptyString else Count (sum_list (map f data)))"

text \<open>The dtype of the column \<open>message\<close> of the table that \<open>preprocess\<close> returns.\<close>

definition message_dtype :: "string \<Rightarrow> dtype" where
  "message_dtype raw_data = (if raw_records raw_data = [] then object_dtype else str_dtype)"

definition stats_of ::
  "(string \<Rightarrow> string list) \<Rightarrow> dtype \<Rightarrow> chat_record list \<Rightarrow> nat \<times> series_sum \<times> nat \<times> series_sum" where
  "stats_of find_urls dt data =
     (let num_messages = length data;
          words = apply_sum dt (\<lambda>r. length (py_split (message r))) data;
          num_media_messages = length (filter (\<lambda>r. message r = ''<Media omitted>'') data);
          num_links = apply_sum dt (\<lambda>r. length (find_urls (message r))) data
      in (num_messages, words, num_media_messages, num_links))"

text \<open>\<open>dt\<close> is the dtype of the column \<open>message\<close> of \<open>df\<close>.\<close>

definition fetch_stats ::
  "(string \<Rightarrow> string list) \<Rightarrow> string \<Rightarrow> dtype \<Rightarrow> chat_record list
     \<Rightarrow> nat \<times> series_sum \<times> nat \<times> series_sum" where
  "fetch_stats find_urls selected_user dt df =
     stats_of find_urls dt (select_user selected_user df)"

subsection \<open>most_busy_users\<close>

text \<open>
  The percentages are 64-bit floats. A float is modelled by the rational it denotes,
  and every operation rounds its exact result to the nearest number with a significand
  of 53 bits, a tie to the even significand (\<open>fl\<close>). The range of the exponent is not
  modelled: counts and percentages lie far inside it.
\<close>

text \<open>\<open>np.rint\<close>: the nearest integer, a tie to the even one.\<close>

definition rint :: "rat \<Rightarrow> int" where
  "rint x =
     (let f = \<lfloor>x\<rfloor>; d = x - of_int f
      in if d < 1 / 2 then f else if 1 / 2 < d then f + 1 else if even f then f else f + 1)"

text \<open>The binary exponent of a positive number: the \<open>e\<close> with \<open>2^e \<le> x < 2^(e+1)\<close>.\<close>

definition float_exponent :: "rat \<Rightarrow> int" where
  "float_exponent x =
     (if 1 \<le> x then bitlen \<lfloor>x\<rfloor> - 1
      else (let j = bitlen \<lfloor>1 / x\<rfloor> - 1 in if 1 \<le> x * 2 powi j then - j else - j - 1))"

definition fl :: "rat \<Rightarrow> rat" where
  "fl x =
     (if x = 0 then 0
      else (let u = 2 powi (float_exponent \<bar>x\<bar> - 52)
            in sgn x * of_int (rint (\<bar>x\<bar> / u)) * u))"

text \<open>
  \<open>Series.round(2)\<close> is numpy's: multiply by 100, \<open>rint\<close>, divide by 100, each in floats.
\<close>

definition round2 :: "rat \<Rightarrow> rat" where
  "round2 x = fl (of_int (rint (fl (x * 100))) / 100)"

text \<open>
  One entry of \<open>(user_counts / total_msgs * 100).round(2)\<close>: both integers become
  floats, then the division and the multiplication.
\<close>

definition percent_of :: "nat \<Rightarrow> nat \<Rightarrow> rat" where
  "percent_of c total_msgs = round2 (fl (fl (fl (of_nat c) / fl (of_nat total_msgs)) * 100))"

definition most_busy_users ::
  "chat_record list \<Rightarrow> (string \<times> nat) list \<times> (string \<times> rat) list" where
  "most_busy_users df =
     (let user_counts =
            filter (\<lambda>p. fst p \<noteq> ''group_notification'') (value_counts (map user df));
          total_msgs = sum_list (map snd user_counts);
          percent_df = map (\<lambda>p. (fst p, percent_of (snd p) total_msgs)) user_counts
      in (user_counts, percent_df))"

subsection \<open>The stopword file\<close>

text \<open>
  \<open>open('stop_hinglish.txt', 'r', encoding='utf-8')\<close> reads the file system, which is a
  map from file names to contents here; a missing file raises.
\<close>

datatype py_error = FileNotFoundError

definition load_stop_words :: "(string \<rightharpoonup> string) \<Rightarrow> py_error + string set" where
  "load_stop_words fs =
     (case fs ''stop_hinglish.txt'' of
        None \<Rightarrow> Inl FileNotFoundError
      | Some content \<Rightarrow> Inr (set (py_split content)))"

subsection \<open>create_wordcloud\<close>

definition is_upper :: "char \<Rightarrow> bool" where
  "is_upper c =
     (let n = (of_char c :: nat)
      in (65 \<le> n \<and> n \<le> 90) \<or> (192 \<le> n \<and> n \<le> 214) \<or> (216 \<le> n \<and> n \<le> 222))"

definition py_lower :: "string \<Rightarrow> string" where
  "py_lower s = map (\<lambda>c. if is_upper c then char_of ((of_char c :: nat) + 32) else c) s"

definition is_alpha :: "char \<Rightarrow> bool" where
  "is_alpha c =
     (let n = (of_char c :: nat)
      in (65 \<le> n \<and> n \<le> 90) \<or> (97 \<le> n \<and> n \<le> 122) \<or> n = 170 \<or> n = 181 \<or> n = 186
         \<or> (192 \<le> n \<and> n \<le> 214) \<or> (216 \<le> n \<and> n \<le> 246) \<or> 248 \<le> n)"

definition py_isalpha :: "string \<Rightarrow> bool" where
  "py_isalpha s = (s \<noteq> [] \<and> list_all is_alpha s)"

text \<open>\<open>sep.join(xs)\<close>.\<close>

fun join :: "string \<Rightarrow> string list \<Rightarrow> string" where
  "join sep [] = []"
| "join sep [x] = x"
| "join sep (x # y # zs) = x @ sep @ join sep (y # zs)"

definition remove_stops :: "string set \<Rightarrow> string \<Rightarrow> string" where
  "remove_stops stop_words text =
     join '' '' (filter (\<lambda>w. w \<notin> stop_words) (py_split (py_lower text)))"

definition wordcloud_text :: "string set \<Rightarrow> chat_record list \<Rightarrow> string" where
  "wordcloud_text stop_words data0 =
     (let data = filter (\<lambda>r. \<not> contains ''<Media omitted>'' (message r)) data0
      in join '' '' (map (\<lambda>r. remove_stops stop_words (message r)) data))"

text \<open>\<open>WordCloud(...).generate\<close> is a parameter.\<close>

definition create_wordcloud ::
  "(string \<Rightarrow> 'w) \<Rightarrow> (string \<rightharpoonup> string) \<Rightarrow> string \<Rightarrow> chat_record list \<Rightarrow> py_error + 'w" where
  "create_wordcloud generate fs selected_user df =
     (case load_stop_words fs of
        Inl e \<Rightarrow> Inl e
      | Inr stop_words \<Rightarrow> Inr (generate (wordcloud_text stop_words (select_user selected_user df))))"

subsection \<open>most_common_words\<close>

definition common_words_of :: "string set \<Rightarrow> chat_record list \<Rightarrow> (string \<times> nat) list" where
  "common_words_of stop_words data =
     (let temp = filter (\<lambda>r. \<not> contains ''<Media omitted>'' (message r)) data;
          temp = filter (\<lambda>r. \<not> contains ''http'' (message r)) temp;
          words =
            concat (map (\<lambda>r. filter (\<lambda>w. py_isalpha w \<and> w \<notin> stop_words)
                                (py_split (py_lower (message r)))) temp)
      in most_common 20 (Counter words))"

definition most_common_words ::
  "(string \<rightharpoonup> string) \<Rightarrow> string \<Rightarrow> chat_record list \<Rightarrow> py_error + (string \<times> nat) list" where
  "most_common_words fs selected_user df =
     (case load_stop_words fs of
        Inl e \<Rightarrow> Inl e
      | Inr stop_words \<Rightarrow> Inr (common_words_of stop_words (select_user selected_user df)))"

subsection \<open>emoji_helper\<close>

text \<open>The table \<open>emoji.EMOJI_DATA\<close> of the emoji package is a parameter: its keys.\<close>

definition emojis_of :: "char set \<Rightarrow> chat_record list \<Rightarrow> (char \<times> nat) list" where
  "emojis_of emoji_data data =
     (let emojis_list = concat (map (\<lambda>r. filter (\<lambda>ch. ch \<in> emoji_data) (message r)) data)
      in if emojis_list = [] then [] else sort_desc (Counter emojis_list))"

definition emoji_helper :: "char set \<Rightarrow> string \<Rightarrow> chat_record list \<Rightarrow> (char \<times> nat) list" where
  "emoji_helper emoji_data selected_user df = emojis_of emoji_data (select_user selected_user df)"

subsection \<open>Timelines and activity maps\<close>

text \<open>
  A row of \<open>monthly_timeline\<close> is (year, month_num, month, message, time); on a table
  without rows the label column \<open>time\<close> is empty as the others are.
\<close>

definition monthly_of ::
  "chat_record list \<Rightarrow> (nat \<times> nat \<times> string \<times> nat \<times> string) list" where
  "monthly_of data =
     map (\<lambda>(k, n). (fst k, fst (snd k), snd (snd k), n,
                      snd (snd k) @ '' '' @ str_of_nat (fst k)))
       (groupby_count (\<lambda>r. (year r, month_num r, month r)) data)"

definition monthly_timeline ::
  "string \<Rightarrow> chat_record list \<Rightarrow> (nat \<times> nat \<times> string \<times> nat \<times> string) list" where
  "monthly_timeline selected_user df = monthly_of (select_user selected_user df)"

definition daily_of :: "chat_record list \<Rightarrow> ((nat \<times> nat \<times> nat) \<times> nat) list" where
  "daily_of data = groupby_count only_date data"

definition daily_timeline :: "string \<Rightarrow> chat_record list \<Rightarrow> ((nat \<times> nat \<times> nat) \<times> nat) list" where
  "daily_timeline selected_user df = daily_of (select_user selected_user df)"

definition week_activity_map :: "string \<Rightarrow> chat_record list \<Rightarrow> (string \<times> nat) list" where
  "week_activity_map selected_user df = value_counts (map weekday (select_user selected_user df))"

definition month_activity_map :: "string \<Rightarrow> chat_record list \<Rightarrow> (string \<times> nat) list" where
  "month_activity_map selected_user df = value_counts (map month (select_user selected_user df))"

subsection \<open>activity_heatmap\<close>

text \<open>
  A pivot table: the row labels, the column labels and the cells row by row. A cell is
  a number or \<open>NaN\<close>.
\<close>

datatype cell = Num nat | NaN

record heatmap =
  hm_index :: "string list"
  hm_columns :: "string list"
  hm_values :: "cell list list"

text \<open>The label \<open>f"{h}-{(h+1)%24}"\<close>.\<close>

definition period :: "nat \<Rightarrow> string" where
  "period h = str_of_nat h @ ''-'' @ str_of_nat ((h + 1) mod 24)"

text \<open>
  \<open>pivot_table(index='weekday', columns='period', values='message', aggfunc='count')\<close>
  on the (weekday, period) pairs of the rows: the labels that occur, sorted, and a
  count where a combination occurs, \<open>NaN\<close> where it does not.
\<close>

definition pivot_count :: "(string \<times> string) list \<Rightarrow> heatmap" where
  "pivot_count wps =
     (let idx = sort (remdups (map fst wps)); cols = sort (remdups (map snd wps))
      in \<lparr>hm_index = idx, hm_columns = cols,
          hm_values =
            map (\<lambda>w. map (\<lambda>p. if count_list wps (w, p) = 0 then NaN
                                else Num (count_list wps (w, p))) cols) idx\<rparr>)"

definition fillna0 :: "heatmap \<Rightarrow> heatmap" where
  "fillna0 h = h\<lparr>hm_values := map (map (\<lambda>c. case c of NaN \<Rightarrow> Num 0 | Num n \<Rightarrow> Num n)) (hm_values h)\<rparr>"

text \<open>\<open>reindex(labels)\<close>: the rows in the order of \<open>labels\<close>; a label without a row gets a
  row of \<open>NaN\<close>.\<close>

fun row_of :: "string \<Rightarrow> string list \<Rightarrow> cell list list \<Rightarrow> cell list option" where
  "row_of l [] vs = None"
| "row_of l (k # ks) [] = None"
| "row_of l (k # ks) (v # vs) = (if k = l then Some v else row_of l ks vs)"

definition reindex :: "string list \<Rightarrow> heatmap \<Rightarrow> heatmap" where
  "reindex labels h =
     \<lparr>hm_index = labels, hm_columns = hm_columns h,
      hm_values =
        map (\<lambda>l. case row_of l (hm_index h) (hm_values h) of
                    None \<Rightarrow> replicate (length (hm_columns h)) NaN
                  | Some v \<Rightarrow> v) labels\<rparr>"

definition heatmap_of :: "chat_record list \<Rightarrow> heatmap" where
  "heatmap_of data =
     (let periods = map (\<lambda>r. period (hour r)) data;
          hm = fillna0 (pivot_count (zip (map weekday data) periods))
      in reindex weekdays hm)"

definition activity_heatmap :: "string \<Rightarrow> chat_record list \<Rightarrow> heatmap" where
  "activity_heatmap selected_user df = heatmap_of (select_user selected_user df)"

section \<open>Tables as objects\<close>

text \<open>
  A DataFrame is a mutable object, and a view gets a reference to the caller's table.
  A store lists the objects allocated so far; a reference is an index into it. A table
  has the dtype of its column \<open>message\<close>, its rows and, once \<open>activity_heatmap\<close> has
  added it, the column \<open>period\<close>; the
  frame that \<open>preprocessor.daily_timeline\<close> builds has the name of its count column and
  its rows.
\<close>

datatype obj =
    Table dtype "chat_record list" "string list option"
  | Timeline string "((nat \<times> nat \<times> nat) \<times> nat) list"

type_synonym store = "obj list"

definition rows_of :: "obj \<Rightarrow> chat_record list" where
  "rows_of ob = (case ob of Table dt rs ps \<Rightarrow> rs | Timeline c ts \<Rightarrow> [])"

definition period_of :: "obj \<Rightarrow> string list" where
  "period_of ob = (case ob of Table dt rs (Some ps) \<Rightarrow> ps | _ \<Rightarrow> [])"

definition dtype_of :: "obj \<Rightarrow> dtype" where
  "dtype_of ob = (case ob of Table dt rs ps \<Rightarrow> dt | Timeline c ts \<Rightarrow> object_dtype)"

definition alloc :: "obj \<Rightarrow> store \<Rightarrow> nat \<times> store" where
  "alloc ob st = (length st, st @ [ob])"

text \<open>\<open>df.copy()\<close>: a new object with the same contents.\<close>

definition df_copy :: "nat \<Rightarrow> store \<Rightarrow> nat \<times> store" where
  "df_copy a st = alloc (st ! a) st"

text \<open>\<open>data[data['user'] == selected_user]\<close>: a new object with the rows of the sender.\<close>

definition df_rows_of_user :: "string \<Rightarrow> nat \<Rightarrow> store \<Rightarrow> nat \<times> store" where
  "df_rows_of_user u a st =
     alloc (case st ! a of
              Table dt rs ps \<Rightarrow>
                Table dt (filter (\<lambda>r. user r = u) rs)
                  (map_option (\<lambda>qs. map snd (filter (\<lambda>rq. user (fst rq) = u) (zip rs qs))) ps)
            | Timeline c ts \<Rightarrow> Timeline c ts) st"

text \<open>\<open>data['period'] = data['hour'].apply(...)\<close>: the object itself gets the column.\<close>

definition df_set_period :: "nat \<Rightarrow> store \<Rightarrow> store" where
  "df_set_period a st =
     st[a := (case st ! a of
                Table dt rs ps \<Rightarrow> Table dt rs (Some (map (\<lambda>r. period (hour r)) rs))
              | Timeline c ts \<Rightarrow> Timeline c ts)]"

text \<open>\<open>timeline.rename(columns={'message': 'message_count'}, inplace=True)\<close>.\<close>

definition df_rename_message :: "nat \<Rightarrow> store \<Rightarrow> store" where
  "df_rename_message a st =
     st[a := (case st ! a of
                Timeline c ts \<Rightarrow> Timeline (if c = ''message'' then ''message_count'' else c) ts
              | Table dt rs ps \<Rightarrow> Table dt rs ps)]"

text \<open>The first lines of the views of helper.py: a copy, filtered unless \<open>'Overall'\<close>.\<close>

definition select_data :: "string \<Rightarrow> nat \<Rightarrow> store \<Rightarrow> nat \<times> store" where
  "select_data selected_user df st =
     (let (data, st1) = df_copy df st
      in if selected_user \<noteq> ''Overall'' then df_rows_of_user selected_user data st1
         else (data, st1))"

text \<open>The views on a store: the result and the store after the call.\<close>

definition fetch_stats_st ::
  "(string \<Rightarrow> string list) \<Rightarrow> string \<Rightarrow> nat \<Rightarrow> store
     \<Rightarrow> (nat \<times> series_sum \<times> nat \<times> series_sum) \<times> store" where
  "fetch_stats_st find_urls selected_user df st =
     (let (data, st1) = select_data selected_user df st
      in (stats_of find_urls (dtype_of (st1 ! data)) (rows_of (st1 ! data)), st1))"

definition most_busy_users_st ::
  "nat \<Rightarrow> store \<Rightarrow> ((string \<times> nat) list \<times> (string \<times> rat) list) \<times> store" where
  "most_busy_users_st df st = (most_busy_users (rows_of (st ! df)), st)"

definition create_wordcloud_st ::
  "(string \<Rightarrow> 'w) \<Rightarrow> (string \<rightharpoonup> string) \<Rightarrow> string \<Rightarrow> nat \<Rightarrow> store \<Rightarrow> (py_error + 'w) \<times> store" where
  "create_wordcloud_st generate fs selected_user df st =
     (case load_stop_words fs of
        Inl e \<Rightarrow> (Inl e, st)
      | Inr stop_words \<Rightarrow>
          let (data, st1) = select_data selected_user df st
          in (Inr (generate (wordcloud_text stop_words (rows_of (st1 ! data)))), st1))"

definition most_common_words_st ::
  "(string \<rightharpoonup> string) \<Rightarrow> string \<Rightarrow> nat \<Rightarrow> store \<Rightarrow> (py_error + (string \<times> nat) list) \<times> store" where
  "most_common_words_st fs selected_user df st =
     (case load_stop_words fs of
        Inl e \<Rightarrow> (Inl e, st)
      | Inr stop_words \<Rightarrow>
          let (data, st1) = select_data selected_user df st
          in (Inr (common_words_of stop_words (rows_of (st1 ! data))), st1))"

definition emoji_helper_st ::
  "char set \<Rightarrow> string \<Rightarrow> nat \<Rightarrow> store \<Rightarrow> (char \<times> nat) list \<times> store" where
  "emoji_helper_st emoji_data selected_user df st =
     (let (data, st1) = select_data selected_user df st
      in (emojis_of emoji_data (rows_of (st1 ! data)), st1))"

definition monthly_timeline_st ::
  "string \<Rightarrow> nat \<Rightarrow> store \<Rightarrow> (nat \<times> nat \<times> string \<times> nat \<times> string) list \<times> store" where
  "monthly_timeline_st selected_user df st =
     (let (data, st1) = select_data selected_user df st
      in (monthly_of (rows_of (st1 ! data)), st1))"

definition daily_timeline_st ::
  "string \<Rightarrow> nat \<Rightarrow> store \<Rightarrow> ((nat \<times> nat \<times> nat) \<times> nat) list \<times> store" where
  "daily_timeline_st selected_user df st =
     (let (data, st1) = select_data selected_user df st
      in (daily_of (rows_of (st1 ! data)), st1))"

definition week_activity_map_st :: "string \<Rightarrow> nat \<Rightarrow> store \<Rightarrow> (string \<times> nat) list \<times> store" where
  "week_activity_map_st selected_user df st =
     (let (data, st1) = select_data selected_user df st
      in (value_counts (map weekday (rows_of (st1 ! data))), st1))"

definition month_activity_map_st :: "string \<Rightarrow> nat \<Rightarrow> store \<Rightarrow> (string \<times> nat) list \<times> store" where
  "month_activity_map_st selected_user df st =
     (let (data, st1) = select_data selected_user df st
      in (value_counts (map month (rows_of (st1 ! data))), st1))"

definition activity_heatmap_st :: "string \<Rightarrow> nat \<Rightarrow> store \<Rightarrow> heatmap \<times> store" where
  "activity_heatmap_st selected_user df st =
     (let (data, st1) = select_data selected_user df st;
          st2 = df_set_period data st1;
          hm = fillna0 (pivot_count (zip (map weekday (rows_of (st2 ! data)))
                 (period_of (st2 ! data))))
      in (reindex weekdays hm, st2))"

text \<open>
  \<open>daily_timeline\<close> of preprocessor.py works on the caller's table itself when
  \<open>selected_user\<close> is \<open>'Overall'\<close>, and renames the count column of the frame it built.
  It returns the reference to that frame.
\<close>

definition preprocessor_daily_timeline :: "string \<Rightarrow> nat \<Rightarrow> store \<Rightarrow> nat \<times> store" where
  "preprocessor_daily_timeline selected_user df st =
     (let (data, st1) =
            (if selected_user \<noteq> ''Overall'' then df_rows_of_user selected_user df st
             else (df, st));
          (timeline, st2) = alloc (Timeline ''message'' (daily_of (rows_of (st1 ! data)))) st1
      in (timeline, df_rename_message timeline st2))"

section \<open>Notions of the specification\<close>

text \<open>
  Step 2b as the specification words it: a single trailing newline goes, nothing else.
  The parser does not use this function; its own stripping is compared with it.
\<close>

definition spec_strip_one_newline :: "string \<Rightarrow> string" where
  "spec_strip_one_newline body =
     (if body \<noteq> [] \<and> last body = CHR 0x0A then butlast body else body)"

text \<open>
  A share rounded to two decimal places as the specification has it: the nearest
  hundredth of the exact value, a tie to the even hundredth.
\<close>

definition spec_round2 :: "rat \<Rightarrow> rat" where
  "spec_round2 x = of_int (rint (x * 100)) / 100"

text \<open>The text has an occurrence of the timestamp prefix.\<close>

fun has_timestamp :: "string \<Rightarrow> bool" where
  "has_timestamp [] = False"
| "has_timestamp (c # cs) = (re_match pattern (c # cs) \<noteq> None \<or> has_timestamp cs)"

text \<open>The sum of the numbers of a grid; a \<open>NaN\<close> cell adds nothing.\<close>

fun cell_count :: "cell \<Rightarrow> nat" where
  "cell_count (Num n) = n"
| "cell_count NaN = 0"

definition grid_total :: "heatmap \<Rightarrow> nat" where
  "grid_total hm = sum_list (map (\<lambda>row. sum_list (map cell_count row)) (hm_values hm))"

section \<open>Sample inputs\<close>

text \<open>The export of the specification's example.\<close>

definition example_chat :: string where
  "example_chat =
     ''1/1/23, 09:00 - Alice: Hello there\<newline>1/1/23, 09:05 - Bob: <Media omitted>\<newline>1/1/23, 09:06 - Alice added Bob\<newline>''"

text \<open>A sender who calls himself Overall, a message without a sender before the
  delimiter, and a message that ends in two line breaks.\<close>

definition overall_chat :: string where
  "overall_chat = ''1/1/23, 09:00 - Overall: hi\<newline>1/1/23, 09:01 - Bob: yo\<newline>''"

definition empty_sender_chat :: string where
  "empty_sender_chat = ''1/1/23, 09:00 - : hello''"

definition newlines_chat :: string where
  "newlines_chat = ''1/1/23, 09:00 - Alice: hi\<newline>\<newline>''"

text \<open>The three rows of the example's table, and a row of the sender Overall.\<close>

definition alice_hello :: chat_record where
  "alice_hello =
     \<lparr>message_date = \<lparr>ts_year = 2023, ts_month = 1, ts_day = 1, ts_hour = 9, ts_minute = 0\<rparr>,
      user = ''Alice'', message = ''Hello there'', year = 2023, month = ''January'',
      month_num = 1, day = 1, hour = 9, minute = 0, weekday = ''Sunday'',
      only_date = (2023, 1, 1)\<rparr>"

definition bob_media :: chat_record where
  "bob_media =
     \<lparr>message_date = \<lparr>ts_year = 2023, ts_month = 1, ts_day = 1, ts_hour = 9, ts_minute = 5\<rparr>,
      user = ''Bob'', message = ''<Media omitted>'', year = 2023, month = ''January'',
      month_num = 1, day = 1, hour = 9, minute = 5, weekday = ''Sunday'',
      only_date = (2023, 1, 1)\<rparr>"

definition alice_added :: chat_record where
  "alice_added =
     \<lparr>message_date = \<lparr>ts_year = 2023, ts_month = 1, ts_day = 1, ts_hour = 9, ts_minute = 6\<rparr>,
      user = ''group_notification'', message = ''Alice added Bob'', year = 2023,
      month = ''January'', month_num = 1, day = 1, hour = 9, minute = 6, weekday = ''Sunday'',
      only_date = (2023, 1, 1)\<rparr>"

definition example_table :: "chat_record list" where
  "example_table = [alice_hello, bob_media, alice_added]"

definition overall_hi :: chat_record where
  "overall_hi =
     \<lparr>message_date = \<lparr>ts_year = 2023, ts_month = 1, ts_day = 1, ts_hour = 9, ts_minute = 0\<rparr>,
      user = ''Overall'', message = ''hi'', year = 2023, month = ''January'',
      month_num = 1, day = 1, hour = 9, minute = 0, weekday = ''Sunday'',
      only_date = (2023, 1, 1)\<rparr>"

definition bob_yo :: chat_record where
  "bob_yo =
     \<lparr>message_date = \<lparr>ts_year = 2023, ts_month = 1, ts_day = 1, ts_hour = 9, ts_minute = 1\<rparr>,
      user = ''Bob'', message = ''yo'', year = 2023, month = ''January'',
      month_num = 1, day = 1, hour = 9, minute = 1, weekday = ''Sunday'',
      only_date = (2023, 1, 1)\<rparr>"

definition overall_table :: "chat_record list" where
  "overall_table = [overall_hi, bob_yo]"

text \<open>A message dated in a thirteenth month, and a table of 137 messages of Bob and 23
  of Alice.\<close>

definition bad_month_chat :: string where
  "bad_month_chat = ''1/13/23, 09:00 - A: x\<newline>''"

definition busy_table :: "chat_record list" where
  "busy_table = replicate 137 bob_yo @ replicate 23 alice_hello"

text \<open>A stand-in for the URL extractor: the tokens with a dot.\<close>

definition dot_tokens :: "string \<Rightarrow> string list" where
  "dot_tokens s = filter (contains ''.'') (py_split s)"

section \<open>Floats\<close>

text \<open>Evaluating the bit length and the floor of numerals.\<close>

lemma bitlen_numeral:
  "bitlen (numeral (Num.Bit0 n)) = bitlen (numeral n) + 1"
  "bitlen (numeral (Num.Bit1 n)) = bitlen (numeral n) + 1"
  "bitlen 1 = 1"
  by (subst compute_bitlen, simp)+

lemma floor_rat_numeral:
  "\<lfloor>numeral a / numeral b :: rat\<rfloor> = numeral a div numeral b"
  using floor_divide_of_int_eq [of "numeral a" "numeral b", where ?'a = rat] by simp

lemmas fl_eval =
  percent_of_def round2_def fl_def float_exponent_def rint_def power_int_minus Let_def
  bitlen_numeral floor_rat_numeral

lemma percent_half: "percent_of 1 2 = 50" "percent_of (Suc 0) (Suc (Suc 0)) = 50"
proof -
  show h: "percent_of 1 2 = 50" by (simp add: fl_eval)
  then show "percent_of (Suc 0) (Suc (Suc 0)) = 50" by (simp add: numeral_2_eq_2)
qed

lemma rint_near: "\<bar>of_int (rint x) - x\<bar> \<le> 1 / 2"
proof -
  have "of_int \<lfloor>x\<rfloor> \<le> x" "x < of_int \<lfloor>x\<rfloor> + 1" by linarith+
  then show ?thesis by (auto simp: rint_def Let_def abs_le_iff)
qed

lemma rint_of_int [simp]: "rint (of_int n) = n"
  by (simp add: rint_def)

lemma float_exponent_bounds:
  assumes "0 < x"
  shows "2 powi float_exponent x \<le> x" and "x < 2 powi (float_exponent x + 1)"
proof -
  have "2 powi float_exponent x \<le> x \<and> x < 2 powi (float_exponent x + 1)"
  proof (cases "1 \<le> x")
    case True
    let ?n = "\<lfloor>x\<rfloor>"
    from True have n: "0 < ?n" by linarith
    then have b: "1 \<le> bitlen ?n" using bitlen_eq_zero_iff [of ?n] bitlen_nonneg [of ?n] by linarith
    from bitlen_bounds [OF n] have lo: "2 ^ nat (bitlen ?n - 1) \<le> ?n" and hi: "?n < 2 ^ nat (bitlen ?n)"
      by simp_all
    from True have e: "float_exponent x = bitlen ?n - 1" by (simp add: float_exponent_def)
    have p1: "(2::rat) powi (bitlen ?n - 1) = 2 ^ nat (bitlen ?n - 1)"
      using b by (simp add: power_int_def)
    have p2: "(2::rat) powi (bitlen ?n - 1 + 1) = 2 ^ nat (bitlen ?n)"
      using b by (simp add: power_int_def)
    from lo have "(of_int (2 ^ nat (bitlen ?n - 1)) :: rat) \<le> of_int ?n" by (simp only: of_int_le_iff)
    then have "(2::rat) ^ nat (bitlen ?n - 1) \<le> of_int ?n" by simp
    also have "\<dots> \<le> x" by linarith
    finally have 1: "2 powi float_exponent x \<le> x" by (simp only: e p1)
    from hi have "?n + 1 \<le> 2 ^ nat (bitlen ?n)" by linarith
    then have "(of_int (?n + 1) :: rat) \<le> of_int (2 ^ nat (bitlen ?n))" by (simp only: of_int_le_iff)
    then have "of_int ?n + 1 \<le> (2::rat) ^ nat (bitlen ?n)" by simp
    moreover have "x < of_int ?n + 1" by linarith
    ultimately have "x < (2::rat) ^ nat (bitlen ?n)" by linarith
    then have 2: "x < 2 powi (float_exponent x + 1)" by (simp only: e p2)
    from 1 2 show ?thesis ..
  next
    case False
    let ?r = "1 / x"
    let ?n = "\<lfloor>?r\<rfloor>"
    let ?j = "bitlen ?n - 1"
    from False assms have r: "1 < ?r" by (simp add: field_simps)
    then have n: "0 < ?n" by linarith
    then have b: "1 \<le> bitlen ?n" using bitlen_eq_zero_iff [of ?n] bitlen_nonneg [of ?n] by linarith
    from bitlen_bounds [OF n] have lo: "2 ^ nat ?j \<le> ?n" and hi: "?n < 2 ^ nat (bitlen ?n)"
      by simp_all
    have pj: "(2::rat) powi ?j = 2 ^ nat ?j" using b by (simp add: power_int_def)
    have "(2::rat) powi (- ?j) = inverse (2 powi ?j)" by (rule power_int_minus)
    then have pm: "(2::rat) powi (- ?j) = 1 / 2 ^ nat ?j"
      by (simp add: pj inverse_eq_divide)
    have "(of_int (2 ^ nat ?j) :: rat) \<le> of_int ?n" using lo by (simp only: of_int_le_iff)
    then have "(2::rat) ^ nat ?j \<le> of_int ?n" by simp
    also have "\<dots> \<le> ?r" by linarith
    finally have up: "x \<le> 1 / 2 ^ nat ?j" using assms by (simp add: field_simps)
    have pm1: "(2::rat) powi (- ?j - 1) = 1 / 2 ^ nat (bitlen ?n)"
    proof -
      have "(2::rat) powi (- ?j - 1) = 2 powi (- bitlen ?n)" by simp
      also have "\<dots> = inverse (2 powi bitlen ?n)" by (rule power_int_minus)
      also have "(2::rat) powi bitlen ?n = 2 ^ nat (bitlen ?n)" using b by (simp add: power_int_def)
      finally show ?thesis by (simp add: field_simps)
    qed
    from hi have "?n + 1 \<le> 2 ^ nat (bitlen ?n)" by linarith
    then have "(of_int (?n + 1) :: rat) \<le> of_int (2 ^ nat (bitlen ?n))" by (simp only: of_int_le_iff)
    then have "of_int ?n + 1 \<le> (2::rat) ^ nat (bitlen ?n)" by simp
    moreover have "?r < of_int ?n + 1" by linarith
    ultimately have "?r < (2::rat) ^ nat (bitlen ?n)" by linarith
    with assms have low: "1 / 2 ^ nat (bitlen ?n) < x"
      by (simp add: field_simps)
    show ?thesis
    proof (cases "1 \<le> x * 2 powi ?j")
      case True
      with False have e: "float_exponent x = - ?j" by (simp add: float_exponent_def Let_def)
      from True have "1 / 2 ^ nat ?j \<le> x" by (simp add: pj field_simps)
      then have 1: "2 powi float_exponent x \<le> x" by (simp only: e pm)
      have "(2::rat) powi (- ?j + 1) = 2 powi (- ?j) * 2" by (rule power_int_add_1) simp
      then have "(2::rat) powi (- ?j + 1) = 2 * (1 / 2 ^ nat ?j)" by (simp only: pm mult.commute)
      moreover have "(0::rat) < 1 / 2 ^ nat ?j" by simp
      ultimately have "x < 2 powi (- ?j + 1)" using up by linarith
      then have 2: "x < 2 powi (float_exponent x + 1)" by (simp only: e)
      from 1 2 show ?thesis ..
    next
      case c: False
      with False have e: "float_exponent x = - ?j - 1" by (simp add: float_exponent_def Let_def)
      from low have 1: "2 powi float_exponent x \<le> x" by (simp only: e pm1)
      from c have "x < 1 / 2 ^ nat ?j" by (simp add: pj field_simps)
      moreover have "float_exponent x + 1 = - ?j" by (simp add: e)
      ultimately have 2: "x < 2 powi (float_exponent x + 1)" by (simp only: pm)
      from 1 2 show ?thesis ..
    qed
  qed
  then show "2 powi float_exponent x \<le> x" and "x < 2 powi (float_exponent x + 1)" by simp_all
qed

lemma fl_error:
  "\<bar>fl x - x\<bar> \<le> \<bar>x\<bar> / 2 ^ 53"
proof (cases "x = 0")
  case True
  then show ?thesis by (simp add: fl_def)
next
  case False
  let ?a = "\<bar>x\<bar>"
  let ?e = "float_exponent ?a"
  let ?u = "(2::rat) powi (?e - 52)"
  from False have a: "0 < ?a" by simp
  have u: "0 < ?u" by simp
  have "(2::rat) powi (?e + (- 52)) = 2 powi ?e * 2 powi (- 52)"
    by (rule power_int_add) simp
  then have us: "?u = 2 powi ?e / 2 ^ 52" by (simp add: power_int_minus field_simps)
  from float_exponent_bounds(1) [OF a] have "2 powi ?e \<le> ?a" .
  then have ule: "?u \<le> ?a / 2 ^ 52" unfolding us by (simp add: divide_right_mono)
  have flx: "fl x = sgn x * of_int (rint (?a / ?u)) * ?u"
    using False by (simp add: fl_def Let_def)
  have x: "x = sgn x * (?a / ?u) * ?u" using u by (simp add: sgn_mult_abs)
  have "fl x - x = sgn x * (of_int (rint (?a / ?u)) - ?a / ?u) * ?u"
    by (subst flx, subst (2) x) (simp add: algebra_simps)
  then have "\<bar>fl x - x\<bar> = \<bar>of_int (rint (?a / ?u)) - ?a / ?u\<bar> * ?u"
    using False u by (simp add: abs_mult abs_sgn_eq)
  also have "\<dots> \<le> 1 / 2 * ?u"
    using rint_near [of "?a / ?u"] u by (intro mult_right_mono) simp_all
  also have "\<dots> \<le> 1 / 2 * (?a / 2 ^ 52)" using ule by simp
  finally show ?thesis by simp
qed

lemma fl_of_nat:
  assumes "n < 2 ^ 53"
  shows "fl (of_nat n) = of_nat n"
proof (cases "n = 0")
  case True
  then show ?thesis by (simp add: fl_def)
next
  case False
  let ?x = "of_nat n :: rat"
  let ?b = "bitlen (int n)"
  from False have x: "1 \<le> ?x" by simp
  from x have e: "float_exponent ?x = ?b - 1" by (simp add: float_exponent_def)
  from assms have b: "?b \<le> 53" using less_power_nat_iff_bitlen [of n 53] by simp
  let ?d = "nat (53 - ?b)"
  have eq: "?b - 53 = - int ?d" using b by simp
  have "(2::rat) powi (- int ?d) = inverse (2 powi int ?d)" by (rule power_int_minus)
  also have "\<dots> = 1 / 2 ^ ?d" by (simp only: power_int_of_nat inverse_eq_divide)
  finally have u: "(2::rat) powi (?b - 53) = 1 / 2 ^ ?d" by (simp only: eq)
  have "?x * 2 ^ ?d = of_int (int n * 2 ^ ?d)" by simp
  then have r: "rint (?x * 2 ^ ?d) = int n * 2 ^ ?d" by (simp only: rint_of_int)
  have "fl ?x = of_int (rint (?x * 2 ^ ?d)) / 2 ^ ?d"
    using False by (simp add: fl_def Let_def e u)
  then show ?thesis by (simp add: r)
qed

lemma rint_nearest_fraction:
  fixes m t :: int and y \<eta> :: rat
  assumes t: "0 < t" and y: "\<bar>y - of_int m / of_int t\<bar> \<le> \<eta>" and small: "2 * of_int t * \<eta> < 1"
  shows "\<bar>(of_int (rint y) :: rat) - of_int m / of_int t\<bar> \<le> 1 / 2"
proof -
  let ?k = "rint y"
  let ?w = "of_int ?k - of_int m / (of_int t :: rat)"
  let ?D = "2 * ?k * t - 2 * m"
  have tr: "(0::rat) < of_int t" using t by simp
  have "\<bar>of_int ?k - y\<bar> \<le> 1 / 2" by (rule rint_near)
  with y have w: "\<bar>?w\<bar> \<le> 1 / 2 + \<eta>" by linarith
  have D: "(of_int ?D :: rat) = 2 * of_int t * ?w" using tr by (simp add: field_simps)
  have "\<bar>of_int ?D :: rat\<bar> = 2 * of_int t * \<bar>?w\<bar>"
    unfolding D using tr by (simp add: abs_mult)
  also have "\<dots> \<le> 2 * of_int t * (1 / 2 + \<eta>)"
    using w tr by (intro mult_left_mono) simp_all
  also have "\<dots> = of_int t + 2 * of_int t * \<eta>" by (simp add: algebra_simps)
  also have "\<dots> < of_int t + 1" using small by simp
  finally have "\<bar>of_int ?D :: rat\<bar> < of_int (t + 1)" by simp
  then have "(of_int \<bar>?D\<bar> :: rat) < of_int (t + 1)" by simp
  then have "\<bar>?D\<bar> < t + 1" by (simp only: of_int_less_iff)
  then have "\<bar>?D\<bar> \<le> t" by simp
  then have "(of_int \<bar>?D\<bar> :: rat) \<le> of_int t" by (simp only: of_int_le_iff)
  then have "\<bar>of_int ?D :: rat\<bar> \<le> of_int t" by simp
  then have "2 * of_int t * \<bar>?w\<bar> \<le> of_int t"
    unfolding D using tr by (simp add: abs_mult)
  then have "of_int t * (2 * \<bar>?w\<bar>) \<le> of_int t * 1" by (simp add: algebra_simps)
  then have "2 * \<bar>?w\<bar> \<le> 1" using tr by (simp only: mult_le_cancel_left_pos)
  then show ?thesis by simp
qed

lemma percent_chain:
  fixes r :: rat
  assumes r: "0 < r" "r \<le> 1"
  shows "\<bar>fl (fl (fl r * 100) * 100) - 10000 * r\<bar> \<le> 30200 / 2 ^ 53"
proof -
  let ?q = "fl r"
  let ?x = "fl (?q * 100)"
  let ?y = "fl (?x * 100)"
  have p: "(2::rat) ^ 53 = 9007199254740992" by simp
  have q: "\<bar>?q - r\<bar> \<le> \<bar>r\<bar> / 9007199254740992"
    using fl_error [of r] by (simp only: p)
  have x: "\<bar>?x - ?q * 100\<bar> \<le> \<bar>?q * 100\<bar> / 9007199254740992"
    using fl_error [of "?q * 100"] by (simp only: p)
  have y: "\<bar>?y - ?x * 100\<bar> \<le> \<bar>?x * 100\<bar> / 9007199254740992"
    using fl_error [of "?x * 100"] by (simp only: p)
  from q r have q1: "\<bar>?q - r\<bar> \<le> 1 / 9007199254740992" and q0: "0 \<le> ?q" and q2: "?q \<le> 1001 / 1000"
    by linarith+
  from x q0 q2 have x1: "\<bar>?x - ?q * 100\<bar> \<le> 101 / 9007199254740992"
    and x0: "0 \<le> ?x" and x2: "?x \<le> 101"
    by linarith+
  from y x0 x2 have y1: "\<bar>?y - ?x * 100\<bar> \<le> 10100 / 9007199254740992" by linarith
  from q1 x1 y1 have "\<bar>?y - 10000 * r\<bar> \<le> 30200 / 9007199254740992" by linarith
  then show ?thesis by (simp only: p)
qed

lemma percent_nearest:
  assumes c: "0 < c" "c \<le> t" and t: "t \<le> 10 ^ 11"
  shows "\<exists>k::int. percent_of c t = fl (of_int k / 100)
     \<and> \<bar>(of_int k / 100 :: rat) - of_nat c / of_nat t * 100\<bar> \<le> 1 / 200"
proof -
  let ?r = "of_nat c / of_nat t :: rat"
  let ?y = "fl (fl (fl ?r * 100) * 100)"
  let ?k = "rint ?y"
  have "(10::nat) ^ 11 < 2 ^ 53" by simp
  with c t have "c < 2 ^ 53" "t < 2 ^ 53" by linarith+
  then have ex: "fl (of_nat c) = of_nat c" "fl (of_nat t) = of_nat t" by (simp_all only: fl_of_nat)
  have p: "percent_of c t = fl (of_int ?k / 100)"
    by (simp only: percent_of_def round2_def ex)
  from c have r: "0 < ?r" "?r \<le> 1" by simp_all
  have chain: "\<bar>?y - 10000 * ?r\<bar> \<le> 30200 / 2 ^ 53" using r by (rule percent_chain)
  have m: "10000 * ?r = of_int (10000 * int c) / of_int (int t)" by simp
  have tpos: "0 < int t" using c by simp
  have "(of_nat t :: rat) \<le> of_nat (10 ^ 11)" using t by (simp only: of_nat_le_iff)
  then have "(of_int (int t) :: rat) \<le> 100000000000" by simp
  then have small: "2 * of_int (int t) * (30200 / 2 ^ 53 :: rat) < 1" by simp
  have "\<bar>(of_int ?k :: rat) - of_int (10000 * int c) / of_int (int t)\<bar> \<le> 1 / 2"
    using tpos chain [unfolded m] small by (rule rint_nearest_fraction)
  then have "\<bar>(of_int ?k :: rat) - 10000 * ?r\<bar> \<le> 1 / 2" by (simp only: m)
  then have "\<bar>of_int ?k / 100 - ?r * 100\<bar> \<le> (1 / 200 :: rat)" by linarith
  with p show ?thesis by blast
qed

lemma percent_row:
  assumes "0 < c" "c \<le> t" "t \<le> 10 ^ 11"
  shows "(\<exists>k::int. percent_of c t = fl (of_int k / 100)
           \<and> \<bar>(of_int k / 100 :: rat) - of_nat c / of_nat t * 100\<bar> \<le> 1 / 200)
         \<and> \<bar>percent_of c t - of_nat c / of_nat t * 100\<bar> \<le> 1 / 200 + 101 / 2 ^ 53"
proof -
  define q :: rat where "q = of_nat c / of_nat t"
  from percent_nearest [OF assms] obtain k :: int
    where k: "percent_of c t = fl (of_int k / 100)"
      "\<bar>(of_int k / 100 :: rat) - q * 100\<bar> \<le> 1 / 200"
    unfolding q_def by blast
  have "0 < t" using assms by linarith
  with assms(2) have q1: "q \<le> 1" unfolding q_def by simp
  have q0: "0 \<le> q" unfolding q_def by simp
  from k(2) q0 q1 have kb: "\<bar>of_int k / 100 :: rat\<bar> \<le> 101" by linarith
  have "\<bar>fl (of_int k / 100) - of_int k / 100\<bar> \<le> \<bar>of_int k / 100 :: rat\<bar> / 2 ^ 53"
    by (rule fl_error)
  also have "\<dots> \<le> 101 / 2 ^ 53" using kb by (simp add: divide_right_mono)
  finally have "\<bar>fl (of_int k / 100) - q * 100\<bar> \<le> 1 / 200 + 101 / 2 ^ 53"
    using k(2) by linarith
  then have b: "\<bar>percent_of c t - q * 100\<bar> \<le> 1 / 200 + 101 / 2 ^ 53"
    by (simp only: k(1))
  from k have a: "\<exists>k::int. percent_of c t = fl (of_int k / 100)
      \<and> \<bar>(of_int k / 100 :: rat) - q * 100\<bar> \<le> 1 / 200"
    by blast
  from a b show ?thesis unfolding q_def by (rule conjI)
qed

section \<open>The example of the specification\<close>

lemma add_features_simps [simp]:
  "message_date (add_features ts u m) = ts"
  "user (add_features ts u m) = u"
  "message (add_features ts u m) = m"
  "year (add_features ts u m) = ts_year ts"
  "month (add_features ts u m) = month_name ts"
  "month_num (add_features ts u m) = ts_month ts"
  "day (add_features ts u m) = ts_day ts"
  "hour (add_features ts u m) = ts_hour ts"
  "minute (add_features ts u m) = ts_minute ts"
  "weekday (add_features ts u m) = day_name ts"
  "only_date (add_features ts u m) = (ts_year ts, ts_month ts, ts_day ts)"
  by (simp_all add: add_features_def)

lemma example_chat_raw:
  "raw_records example_chat =
     [(''1/1/23, 09:00'', ''Alice'', ''Hello there''),
      (''1/1/23, 09:05'', ''Bob'', ''<Media omitted>''),
      (''1/1/23, 09:06'', ''group_notification'', ''Alice added Bob'')]"
  by code_simp

lemma example_chat_dates:
  "to_datetime ''1/1/23, 09:00'' =
     Some \<lparr>ts_year = 2023, ts_month = 1, ts_day = 1, ts_hour = 9, ts_minute = 0\<rparr>"
  "to_datetime ''1/1/23, 09:05'' =
     Some \<lparr>ts_year = 2023, ts_month = 1, ts_day = 1, ts_hour = 9, ts_minute = 5\<rparr>"
  "to_datetime ''1/1/23, 09:06'' =
     Some \<lparr>ts_year = 2023, ts_month = 1, ts_day = 1, ts_hour = 9, ts_minute = 6\<rparr>"
  by code_simp+

lemma example_chat_parsed:
  "preprocess example_chat =
     [add_features \<lparr>ts_year = 2023, ts_month = 1, ts_day = 1, ts_hour = 9, ts_minute = 0\<rparr>
        ''Alice'' ''Hello there'',
      add_features \<lparr>ts_year = 2023, ts_month = 1, ts_day = 1, ts_hour = 9, ts_minute = 5\<rparr>
        ''Bob'' ''<Media omitted>'',
      add_features \<lparr>ts_year = 2023, ts_month = 1, ts_day = 1, ts_hour = 9, ts_minute = 6\<rparr>
        ''group_notification'' ''Alice added Bob'']"
  by (simp add: preprocess_def example_chat_raw example_chat_dates List.map_filter_simps)

lemmas calendar_defs =
  add_features_def day_name_def month_name_def toordinal_def days_before_year_def
  days_before_month_def days_in_month_def is_leap_def weekdays_def month_names_def

lemma example_chat_table: "preprocess example_chat = example_table"
  by (simp add: example_chat_parsed example_table_def alice_hello_def bob_media_def
      alice_added_def calendar_defs)

lemma overall_chat_table: "preprocess overall_chat = overall_table"
proof -
  have "raw_records overall_chat =
      [(''1/1/23, 09:00'', ''Overall'', ''hi''), (''1/1/23, 09:01'', ''Bob'', ''yo'')]"
    by code_simp
  moreover have "to_datetime ''1/1/23, 09:01'' =
      Some \<lparr>ts_year = 2023, ts_month = 1, ts_day = 1, ts_hour = 9, ts_minute = 1\<rparr>"
    by code_simp
  ultimately show ?thesis
    by (simp add: preprocess_def example_chat_dates List.map_filter_simps overall_table_def
        overall_hi_def bob_yo_def calendar_defs)
qed

lemma example_chat_words:
  "length (py_split ''Hello there'') = 2"
  "length (py_split ''<Media omitted>'') = 2"
  "length (py_split ''Alice added Bob'') = 3"
  by code_simp+

lemma example_chat_counts:
  "value_counts [''Alice'', ''Bob'', ''group_notification''] =
     [(''Alice'', 1), (''Bob'', 1), (''group_notification'', 1)]"
  by code_simp

text \<open>
  C1 (as amended). The example export parses to three records, the third attributed to
  the sentinel. With an extractor that finds no URL in the three texts,
  \<open>fetch_stats\<close> for \<open>'Overall'\<close> returns 3 messages, 7 words (2 + 2 + 3: the placeholder
  and the notification count too), 1 media message and 0 links, and
  \<open>most_busy_users\<close> ranks Alice and Bob with one message each and 50 percent each,
  without a row for the sentinel.
\<close>

theorem example_stats:
  assumes "find_urls ''Hello there'' = []" and "find_urls ''<Media omitted>'' = []"
    and "find_urls ''Alice added Bob'' = []"
  shows "length (preprocess example_chat) = 3
    \<and> map user (preprocess example_chat) = [''Alice'', ''Bob'', ''group_notification'']
    \<and> fetch_stats find_urls ''Overall'' dt (preprocess example_chat) = (3, Count 7, 1, Count 0)
    \<and> most_busy_users (preprocess example_chat) =
        ([(''Alice'', 1), (''Bob'', 1)], [(''Alice'', 50), (''Bob'', 50)])"
  using assms
  by (simp add: example_chat_parsed fetch_stats_def stats_of_def apply_sum_def select_user_def
      example_chat_words most_busy_users_def example_chat_counts percent_half)

theorem example_stats_witness:
  "dot_tokens ''Hello there'' = [] \<and> dot_tokens ''<Media omitted>'' = []
    \<and> dot_tokens ''Alice added Bob'' = []
    \<and> fetch_stats dot_tokens ''Overall'' str_dtype (preprocess example_chat)
        = (3, Count 7, 1, Count 0)
    \<and> fst (most_busy_users (preprocess example_chat)) = [(''Alice'', 1), (''Bob'', 1)]"
proof -
  have h: "dot_tokens ''Hello there'' = []" "dot_tokens ''<Media omitted>'' = []"
      "dot_tokens ''Alice added Bob'' = []"
    by code_simp+
  from example_stats [OF h, of str_dtype] h show ?thesis by simp
qed

text \<open>The word count of the example is not 2, whatever the extractor.\<close>

theorem example_word_count_not_two:
  "\<not> (\<exists>find_urls dt.
        fetch_stats find_urls ''Overall'' dt (preprocess example_chat) = (3, Count 2, 1, Count 0))"
  by (simp add: example_chat_parsed fetch_stats_def stats_of_def apply_sum_def select_user_def
      example_chat_words)

section \<open>The parser\<close>

lemma startswith_iff: "startswith p s \<longleftrightarrow> take (length p) s = p \<and> length p \<le> length s"
  by (induction p s rule: startswith.induct) auto

lemma startswith_append: "startswith p (p @ s)"
  by (simp add: startswith_iff)

lemma split_first_Some:
  "split_first sep s = Some (a, b) \<Longrightarrow> s = a @ sep @ b"
proof (induction s arbitrary: a)
  case Nil
  then show ?case by (simp split: if_splits)
next
  case (Cons c cs)
  show ?case
  proof (cases "startswith sep (c # cs)")
    case True
    with Cons.prems have "a = []" "b = drop (length sep) (c # cs)" by auto
    moreover from True have "take (length sep) (c # cs) = sep" by (simp add: startswith_iff)
    ultimately show ?thesis by (metis append_Nil append_take_drop_id)
  next
    case False
    with Cons.prems obtain a' where "split_first sep cs = Some (a', b)" "a = c # a'"
      by auto
    with Cons.IH show ?thesis by simp
  qed
qed

lemma split_first_first:
  "split_first sep s = Some (a, b) \<Longrightarrow> i < length a \<Longrightarrow> \<not> startswith sep (drop i s)"
proof (induction s arbitrary: a i)
  case Nil
  then show ?case by (simp split: if_splits)
next
  case (Cons c cs)
  show ?case
  proof (cases "startswith sep (c # cs)")
    case True
    with Cons.prems show ?thesis by auto
  next
    case False
    with Cons.prems obtain a' where a': "split_first sep cs = Some (a', b)" "a = c # a'"
      by auto
    show ?thesis
    proof (cases i)
      case 0
      with False show ?thesis by simp
    next
      case (Suc k)
      with Cons.prems a' have "k < length a'" by simp
      from Cons.IH [OF a'(1) this] Suc show ?thesis by simp
    qed
  qed
qed

lemma split_first_None:
  "split_first sep s = None \<Longrightarrow> i \<le> length s \<Longrightarrow> \<not> startswith sep (drop i s)"
proof (induction s arbitrary: i)
  case Nil
  then show ?case by (cases sep) (auto split: if_splits)
next
  case (Cons c cs)
  then show ?case by (cases i) (auto split: if_splits)
qed

lemma contains_iff:
  "contains sub s \<longleftrightarrow> (\<exists>a b. s = a @ sub @ b)"
proof
  assume "contains sub s"
  then obtain a b where "split_first sub s = Some (a, b)"
    by (auto simp: contains_def)
  then show "\<exists>a b. s = a @ sub @ b" using split_first_Some by blast
next
  assume "\<exists>a b. s = a @ sub @ b"
  then obtain a b where s: "s = a @ sub @ b" by blast
  show "contains sub s"
  proof (rule ccontr)
    assume "\<not> contains sub s"
    then have "split_first sub s = None" unfolding contains_def by blast
    from split_first_None [OF this, of "length a"] s show False
      by (simp add: startswith_append)
  qed
qed

lemma py_strip_decomp:
  "\<exists>l t. s = l @ py_strip chars s @ t \<and> set l \<subseteq> set chars \<and> set t \<subseteq> set chars"
proof -
  let ?P = "\<lambda>c. c \<in> set chars"
  let ?m = "dropWhile ?P s"
  have 1: "s = takeWhile ?P s @ ?m" by simp
  have 2: "rev ?m = takeWhile ?P (rev ?m) @ dropWhile ?P (rev ?m)" by simp
  have "?m = rev (dropWhile ?P (rev ?m)) @ rev (takeWhile ?P (rev ?m))"
    by (metis 2 rev_append rev_rev_ident)
  then have "?m = py_strip chars s @ rev (takeWhile ?P (rev ?m))"
    by (simp add: py_strip_def)
  with 1 have "s = takeWhile ?P s @ py_strip chars s @ rev (takeWhile ?P (rev ?m))"
    by simp
  moreover have "set (takeWhile ?P s) \<subseteq> set chars"
    by (auto dest: set_takeWhileD)
  moreover have "set (rev (takeWhile ?P (rev ?m))) \<subseteq> set chars"
    by (auto dest: set_takeWhileD)
  ultimately show ?thesis by blast
qed

lemma py_strip_ends:
  "py_strip chars s = [] \<or> (hd (py_strip chars s) \<notin> set chars \<and> last (py_strip chars s) \<notin> set chars)"
proof (cases "py_strip chars s = []")
  case True
  then show ?thesis by simp
next
  case False
  let ?P = "\<lambda>c. c \<in> set chars"
  let ?m = "dropWhile ?P s"
  let ?k = "dropWhile ?P (rev ?m)"
  from False have k: "?k \<noteq> []" by (simp add: py_strip_def)
  then have hk: "\<not> ?P (hd ?k)" by (rule hd_dropWhile)
  have "last (py_strip chars s) = hd ?k"
    using k by (simp add: py_strip_def last_rev)
  with hk have l: "last (py_strip chars s) \<notin> set chars" by simp
  have m: "?m \<noteq> []"
    using k by (metis dropWhile.simps(1) rev.simps(1))
  then have hm: "\<not> ?P (hd ?m)" by (rule hd_dropWhile)
  have "rev ?m = takeWhile ?P (rev ?m) @ ?k" by simp
  then have "?m = rev ?k @ rev (takeWhile ?P (rev ?m))"
    by (metis rev_append rev_rev_ident)
  with k have "hd ?m = hd (rev ?k)" by (metis hd_append2 rev_is_Nil_conv)
  with hm have "hd (py_strip chars s) \<notin> set chars" by (simp add: py_strip_def)
  with l show ?thesis by simp
qed

lemma re_split_aux_no_match:
  "\<not> has_timestamp s \<Longrightarrow> re_split_aux cur s = [cur @ s]"
  by (induction s arbitrary: cur) auto

lemma preprocess_no_match: "\<not> has_timestamp raw \<Longrightarrow> preprocess raw = []"
  by (simp add: preprocess_def raw_records_def prefix_body_pairs_def re_split_def
      re_split_aux_no_match List.map_filter_simps)


lemma has_timestamp_iff:
  "has_timestamp s \<longleftrightarrow> (\<exists>i<length s. re_match pattern (drop i s) \<noteq> None)"
proof (induction s)
  case Nil
  then show ?case by simp
next
  case (Cons c cs)
  have "(\<exists>i<length (c # cs). re_match pattern (drop i (c # cs)) \<noteq> None) \<longleftrightarrow>
      re_match pattern (c # cs) \<noteq> None \<or> (\<exists>i<length cs. re_match pattern (drop i cs) \<noteq> None)"
    (is "?l \<longleftrightarrow> ?r")
  proof
    assume ?l
    then obtain i where i: "i < length (c # cs)" "re_match pattern (drop i (c # cs)) \<noteq> None"
      by blast
    show ?r
    proof (cases i)
      case 0
      with i show ?thesis by simp
    next
      case (Suc k)
      with i have "k < length cs" "re_match pattern (drop k cs) \<noteq> None" by simp_all
      then show ?thesis by blast
    qed
  next
    assume ?r
    then show ?l
    proof
      assume "re_match pattern (c # cs) \<noteq> None"
      then have "re_match pattern (drop 0 (c # cs)) \<noteq> None" by simp
      then show ?l by blast
    next
      assume "\<exists>i<length cs. re_match pattern (drop i cs) \<noteq> None"
      then obtain k where "k < length cs" "re_match pattern (drop k cs) \<noteq> None" by blast
      then have "Suc k < length (c # cs)" "re_match pattern (drop (Suc k) (c # cs)) \<noteq> None"
        by simp_all
      then show ?l by blast
    qed
  qed
  with Cons.IH show ?case by simp
qed

lemma replicate_of_subset: "set l \<subseteq> {x} \<Longrightarrow> l = replicate (length l) x"
  by (induction l) auto

lemma map_filter_mem:
  "y \<in> set (List.map_filter f xs) \<Longrightarrow> \<exists>x\<in>set xs. f x = Some y"
  by (auto simp: List.map_filter_def)

lemma newlines_chat_pairs:
  "prefix_body_pairs newlines_chat = [(''1/1/23, 09:00 - '', ''Alice: hi\<newline>\<newline>'')]"
  by code_simp

lemma newlines_chat_raw: "raw_records newlines_chat = [(''1/1/23, 09:00'', ''Alice'', ''hi'')]"
  by code_simp

lemma newlines_chat_parsed:
  "preprocess newlines_chat =
     [add_features \<lparr>ts_year = 2023, ts_month = 1, ts_day = 1, ts_hour = 9, ts_minute = 0\<rparr>
        ''Alice'' ''hi'']"
  by (simp add: preprocess_def newlines_chat_raw example_chat_dates List.map_filter_simps)

text \<open>
  C5 (as amended). \<open>strip('\n')\<close> removes every leading and every trailing newline of a
  body, not one trailing newline: the body is the stripped text between two runs of
  newlines, the stripped text neither starts nor ends with a newline (the newlines
  inside it stay), and the sender and the text of the record are split off the
  stripped text.
\<close>

theorem body_newlines_stripped:
  "(\<exists>i j. body = replicate i (CHR 0x0A) @ py_strip ''\<newline>'' body @ replicate j (CHR 0x0A))
   \<and> (py_strip ''\<newline>'' body = []
      \<or> (hd (py_strip ''\<newline>'' body) \<noteq> CHR 0x0A \<and> last (py_strip ''\<newline>'' body) \<noteq> CHR 0x0A))
   \<and> snd (make_record (date_prefix, body)) = split_user_message (py_strip ''\<newline>'' body)"
proof -
  obtain l t where lt: "body = l @ py_strip ''\<newline>'' body @ t"
      "set l \<subseteq> set ''\<newline>''" "set t \<subseteq> set ''\<newline>''"
    using py_strip_decomp by blast
  from lt(2,3) have "l = replicate (length l) (CHR 0x0A)" "t = replicate (length t) (CHR 0x0A)"
    by (simp_all add: replicate_of_subset)
  with lt(1) have 1: "\<exists>i j. body = replicate i (CHR 0x0A) @ py_strip ''\<newline>'' body
      @ replicate j (CHR 0x0A)"
    by metis
  have 2: "py_strip ''\<newline>'' body = []
      \<or> (hd (py_strip ''\<newline>'' body) \<noteq> CHR 0x0A \<and> last (py_strip ''\<newline>'' body) \<noteq> CHR 0x0A)"
    using py_strip_ends [of "''\<newline>''" body] by simp
  have 3: "snd (make_record (date_prefix, body)) = split_user_message (py_strip ''\<newline>'' body)"
    by (simp add: make_record_def split: prod.splits)
  from 1 2 3 show ?thesis by blast
qed

theorem body_newlines_stripped_witness:
  "snd (make_record (''1/1/23, 09:00 - '', ''\<newline>Alice: hi\<newline>\<newline>'')) = (''Alice'', ''hi'')"
proof -
  have "split_user_message (py_strip ''\<newline>'' ''\<newline>Alice: hi\<newline>\<newline>'') = (''Alice'', ''hi'')"
    by code_simp
  with body_newlines_stripped [of "''\<newline>Alice: hi\<newline>\<newline>''" "''1/1/23, 09:00 - ''"]
  show ?thesis by simp
qed

text \<open>
  A body with two trailing newlines loses both, where the specification's step keeps one.
\<close>

theorem two_trailing_newlines_stripped:
  "prefix_body_pairs newlines_chat = [(''1/1/23, 09:00 - '', ''Alice: hi\<newline>\<newline>'')]
   \<and> py_strip ''\<newline>'' ''Alice: hi\<newline>\<newline>'' = ''Alice: hi''
   \<and> spec_strip_one_newline ''Alice: hi\<newline>\<newline>'' = ''Alice: hi\<newline>''
   \<and> map message (preprocess newlines_chat) = [''hi'']"
proof -
  have "py_strip ''\<newline>'' ''Alice: hi\<newline>\<newline>'' = ''Alice: hi''" by code_simp
  moreover have "spec_strip_one_newline ''Alice: hi\<newline>\<newline>'' = ''Alice: hi\<newline>''"
    by (simp add: spec_strip_one_newline_def)
  ultimately show ?thesis by (simp add: newlines_chat_pairs newlines_chat_parsed)
qed

text \<open>
  C4 (as amended). Every record of a parse comes from a (prefix, body) pair of the
  split. If the stripped body has no \<open>": "\<close>, the sender is the sentinel and the text is
  the whole stripped body; otherwise the sender is what stands before the first \<open>": "\<close>
  and the text is what stands after it. Nothing keeps that sender from being empty.
\<close>

theorem sender_of_record:
  assumes "r \<in> set (preprocess raw)"
  shows "\<exists>p\<in>set (prefix_body_pairs raw).
     (let s = py_strip ''\<newline>'' (snd p)
      in if contains '': '' s
         then s = user r @ '': '' @ message r
              \<and> (\<forall>i<length (user r). \<not> startswith '': '' (drop i s))
         else user r = ''group_notification'' \<and> message r = s)"
proof -
  from assms obtain x where x: "x \<in> set (raw_records raw)"
      "(case x of (d, u, m) \<Rightarrow> map_option (\<lambda>ts. add_features ts u m) (to_datetime d)) = Some r"
    unfolding preprocess_def by (blast dest: map_filter_mem)
  obtain d u m where dum: "x = (d, u, m)" by (cases x) auto
  with x(2) have um: "user r = u" "message r = m" by auto
  from x(1) obtain p where p: "p \<in> set (prefix_body_pairs raw)" "x = make_record p"
    by (auto simp: raw_records_def)
  let ?s = "py_strip ''\<newline>'' (snd p)"
  from p(2) dum have sp: "split_user_message ?s = (u, m)"
    by (simp add: make_record_def split: prod.splits)
  have main: "if contains '': '' ?s
         then ?s = user r @ '': '' @ message r
              \<and> (\<forall>i<length (user r). \<not> startswith '': '' (drop i ?s))
         else user r = ''group_notification'' \<and> message r = ?s"
  proof (cases "split_first '': '' ?s")
    case None
    with sp um show ?thesis by (simp add: contains_def split_user_message_def)
  next
    case (Some ab)
    with sp have s: "split_first '': '' ?s = Some (u, m)"
      by (cases ab) (simp add: split_user_message_def)
    from split_first_Some [OF s] split_first_first [OF s] um s
    show ?thesis by (simp add: contains_def)
  qed
  show ?thesis unfolding Let_def
  proof (rule bexI)
    show "p \<in> set (prefix_body_pairs raw)" by (rule p(1))
  qed (rule main)
qed

lemma empty_sender_chat_parsed:
  "preprocess empty_sender_chat =
     [add_features \<lparr>ts_year = 2023, ts_month = 1, ts_day = 1, ts_hour = 9, ts_minute = 0\<rparr>
        [] ''hello'']"
proof -
  have "raw_records empty_sender_chat = [(''1/1/23, 09:00'', [], ''hello'')]" by code_simp
  then show ?thesis
    by (simp add: preprocess_def example_chat_dates List.map_filter_simps)
qed

theorem sender_of_record_witness:
  "add_features \<lparr>ts_year = 2023, ts_month = 1, ts_day = 1, ts_hour = 9, ts_minute = 0\<rparr>
      [] ''hello'' \<in> set (preprocess empty_sender_chat)
   \<and> (\<exists>p\<in>set (prefix_body_pairs empty_sender_chat).
        contains '': '' (py_strip ''\<newline>'' (snd p))
        \<and> py_strip ''\<newline>'' (snd p) = '': hello'')"
proof -
  let ?r = "add_features
      \<lparr>ts_year = 2023, ts_month = 1, ts_day = 1, ts_hour = 9, ts_minute = 0\<rparr> [] ''hello''"
  have mem: "?r \<in> set (preprocess empty_sender_chat)"
    by (simp add: empty_sender_chat_parsed)
  have pairs: "prefix_body_pairs empty_sender_chat = [(''1/1/23, 09:00 - '', '': hello'')]"
    by code_simp
  have c: "contains '': '' (py_strip ''\<newline>'' '': hello'')" by code_simp
  from sender_of_record [OF mem] c have "py_strip ''\<newline>'' '': hello'' = '': hello''"
    by (simp add: pairs)
  with mem c show ?thesis by (simp add: pairs)
qed

text \<open>The record of the body \<open>": hello"\<close> has the empty sender.\<close>

theorem empty_sender_record:
  "\<not> (\<forall>r\<in>set (preprocess empty_sender_chat). user r \<noteq> [])"
  by (simp add: empty_sender_chat_parsed)

section \<open>Empty tables and the stopword file\<close>

lemma preprocess_Nil: "preprocess [] = []"
  by (simp add: preprocess_no_match)

lemma Counter_Nil: "Counter [] = []"
  by (simp add: Counter_def)

lemma value_counts_Nil: "value_counts [] = []"
  by (simp add: value_counts_def sort_desc_def Counter_Nil)

lemma groupby_count_Nil: "groupby_count key [] = []"
  by (simp add: groupby_count_def)

lemma heatmap_of_Nil:
  "heatmap_of [] = \<lparr>hm_index = weekdays, hm_columns = [], hm_values = replicate 7 []\<rparr>"
  by (simp add: heatmap_of_def pivot_count_def fillna0_def reindex_def weekdays_def
      numeral_eq_Suc)

lemma message_dtype_no_match: "\<not> has_timestamp raw \<Longrightarrow> message_dtype raw = object_dtype"
  by (simp add: message_dtype_def raw_records_def prefix_body_pairs_def re_split_def
      re_split_aux_no_match)

lemma message_dtype_Nil: "message_dtype [] = object_dtype"
  by (simp add: message_dtype_no_match)

lemma bad_month_chat_raw: "raw_records bad_month_chat = [(''1/13/23, 09:00'', ''A'', ''x'')]"
  by code_simp

lemma bad_month_chat_date: "to_datetime ''1/13/23, 09:00'' = None"
  by code_simp

lemma bad_month_chat_parsed:
  "preprocess bad_month_chat = []" "message_dtype bad_month_chat = str_dtype"
  by (simp_all add: preprocess_def message_dtype_def bad_month_chat_raw bad_month_chat_date
      List.map_filter_simps)

text \<open>
  C7 (as amended). The parse of the empty text, and of any text without an occurrence
  of the timestamp prefix, is the empty table, built from no record (its column
  \<open>message\<close> has the dtype \<open>object\<close>). On that table \<open>fetch_stats\<close> returns four zeros.
  On every empty table the message count and the media count of \<open>fetch_stats\<close> are 0,
  \<open>most_busy_users\<close>, \<open>emoji_helper\<close>, the timelines and the activity maps return empty
  results, \<open>activity_heatmap\<close> returns the seven weekday rows without a column, and
  \<open>most_common_words\<close> returns the empty list provided the stopword file exists.
\<close>

theorem empty_table_views:
  "preprocess [] = [] \<and> message_dtype [] = object_dtype
   \<and> (\<not> has_timestamp raw \<longrightarrow> preprocess raw = [] \<and> message_dtype raw = object_dtype)
   \<and> fetch_stats find_urls u object_dtype [] = (0, Count 0, 0, Count 0)
   \<and> fst (fetch_stats find_urls u dt []) = 0
   \<and> fst (snd (snd (fetch_stats find_urls u dt []))) = 0
   \<and> most_busy_users [] = ([], [])
   \<and> (fs ''stop_hinglish.txt'' \<noteq> None \<longrightarrow> most_common_words fs u [] = Inr [])
   \<and> emoji_helper emoji_data u [] = []
   \<and> monthly_timeline u [] = []
   \<and> daily_timeline u [] = []
   \<and> week_activity_map u [] = []
   \<and> month_activity_map u [] = []
   \<and> activity_heatmap u [] = \<lparr>hm_index = weekdays, hm_columns = [], hm_values = replicate 7 []\<rparr>"
proof -
  have sel: "select_user u [] = []" by (simp add: select_user_def)
  have "fs ''stop_hinglish.txt'' \<noteq> None \<longrightarrow> most_common_words fs u [] = Inr []"
    by (auto simp: most_common_words_def load_stop_words_def common_words_of_def sel
        most_common_def sort_desc_def Counter_Nil)
  moreover have "most_busy_users [] = ([], [])"
    by (simp add: most_busy_users_def value_counts_Nil)
  moreover have "fetch_stats find_urls u object_dtype [] = (0, Count 0, 0, Count 0)"
    by (simp add: fetch_stats_def stats_of_def apply_sum_def sel)
  moreover have "fst (fetch_stats find_urls u dt []) = 0"
    "fst (snd (snd (fetch_stats find_urls u dt []))) = 0"
    by (simp_all add: fetch_stats_def stats_of_def sel)
  moreover have "emoji_helper emoji_data u [] = []"
    by (simp add: emoji_helper_def emojis_of_def sel)
  moreover have "monthly_timeline u [] = []" "daily_timeline u [] = []"
    by (simp_all add: monthly_timeline_def monthly_of_def daily_timeline_def daily_of_def
        groupby_count_Nil sel)
  moreover have "week_activity_map u [] = []" "month_activity_map u [] = []"
    by (simp_all add: week_activity_map_def month_activity_map_def value_counts_Nil sel)
  moreover have "activity_heatmap u [] =
      \<lparr>hm_index = weekdays, hm_columns = [], hm_values = replicate 7 []\<rparr>"
    by (simp add: activity_heatmap_def heatmap_of_Nil sel)
  ultimately show ?thesis
    by (simp add: preprocess_Nil preprocess_no_match message_dtype_Nil message_dtype_no_match)
qed

theorem empty_table_views_witness:
  "\<not> has_timestamp ''not-a-date - garbage''
   \<and> preprocess ''not-a-date - garbage'' = []
   \<and> most_common_words [''stop_hinglish.txt'' \<mapsto> ''the a''] ''Bob'' [] = Inr []
   \<and> fetch_stats dot_tokens ''Bob'' (message_dtype ''not-a-date - garbage'')
        (preprocess ''not-a-date - garbage'') = (0, Count 0, 0, Count 0)"
proof -
  have h: "\<not> has_timestamp ''not-a-date - garbage''" by code_simp
  from h empty_table_views [where raw = "''not-a-date - garbage''" and find_urls = dot_tokens
      and u = "''Bob''" and fs = "[''stop_hinglish.txt'' \<mapsto> ''the a'']"
      and dt = object_dtype and emoji_data = "{}"]
  show ?thesis by simp
qed

text \<open>
  A text whose only message has the month 13 parses to an empty table that was built
  from one record: the date is \<open>NaT\<close> and the row is dropped, the column \<open>message\<close> keeps
  the dtype \<open>str\<close>, and the word count and the link count of \<open>fetch_stats\<close> are the empty
  string, not 0. And without the stopword file \<open>most_common_words\<close> raises on the empty
  table too.
\<close>

theorem empty_table_of_dropped_rows:
  "preprocess bad_month_chat = []
   \<and> fetch_stats dot_tokens ''Overall'' (message_dtype bad_month_chat)
        (preprocess bad_month_chat) = (0, EmptyString, 0, EmptyString)
   \<and> fetch_stats dot_tokens ''Overall'' (message_dtype bad_month_chat)
        (preprocess bad_month_chat) \<noteq> (0, Count 0, 0, Count 0)
   \<and> most_common_words Map.empty ''Overall'' (preprocess []) = Inl FileNotFoundError"
  by (simp add: bad_month_chat_parsed fetch_stats_def stats_of_def apply_sum_def
      select_user_def most_common_words_def load_stop_words_def)

text \<open>
  C6 (as amended). \<open>most_common_words\<close> and \<open>create_wordcloud\<close> read the stopword file at
  each call: a call raises \<open>FileNotFoundError\<close> exactly when the file is missing at
  that call, and otherwise works with the words the file holds at that call.
\<close>

theorem stop_words_read_at_each_call:
  "(most_common_words fs u df = Inl FileNotFoundError \<longleftrightarrow> fs ''stop_hinglish.txt'' = None)
   \<and> (create_wordcloud generate fs u df = Inl FileNotFoundError
        \<longleftrightarrow> fs ''stop_hinglish.txt'' = None)
   \<and> (\<forall>content. fs ''stop_hinglish.txt'' = Some content \<longrightarrow>
         most_common_words fs u df
           = Inr (common_words_of (set (py_split content)) (select_user u df))
         \<and> create_wordcloud generate fs u df
           = Inr (generate (wordcloud_text (set (py_split content)) (select_user u df))))"
  by (auto simp: most_common_words_def create_wordcloud_def load_stop_words_def
      split: option.splits)

lemma example_common_words:
  "common_words_of (set (py_split ''there'')) (select_user ''Alice'' example_table)
     = [(''hello'', 1)]"
  "common_words_of (set (py_split ''hello'')) (select_user ''Alice'' example_table)
     = [(''there'', 1)]"
  by code_simp+

theorem stop_words_read_at_each_call_witness:
  "most_common_words [''stop_hinglish.txt'' \<mapsto> ''there''] ''Alice'' example_table
     = Inr [(''hello'', 1)]
   \<and> most_common_words [''stop_hinglish.txt'' \<mapsto> ''hello''] ''Alice'' example_table
     = Inr [(''there'', 1)]
   \<and> most_common_words Map.empty ''Alice'' example_table = Inl FileNotFoundError"
  using stop_words_read_at_each_call [where fs = "[''stop_hinglish.txt'' \<mapsto> ''there'']"
      and u = "''Alice''" and df = example_table and generate = id]
    stop_words_read_at_each_call [where fs = "[''stop_hinglish.txt'' \<mapsto> ''hello'']"
      and u = "''Alice''" and df = example_table and generate = id]
    stop_words_read_at_each_call [where fs = Map.empty
      and u = "''Alice''" and df = example_table and generate = id]
  by (simp add: example_common_words)

text \<open>With the file missing, the call on the example's table raises.\<close>

theorem common_words_fail_without_file:
  "most_common_words Map.empty ''Overall'' (preprocess example_chat) = Inl FileNotFoundError"
  by (simp add: most_common_words_def load_stop_words_def)

section \<open>Counts per sender\<close>

lemma select_user_Overall: "select_user ''Overall'' df = df"
  by (simp add: select_user_def)

lemma select_user_other:
  "u \<noteq> ''Overall'' \<Longrightarrow> select_user u df = filter (\<lambda>r. user r = u) df"
  by (simp add: select_user_def)

lemma fst_fetch_stats: "fst (fetch_stats find_urls u dt df) = length (select_user u df)"
  by (simp add: fetch_stats_def stats_of_def)

lemma length_filter_user:
  "length (filter (\<lambda>r. user r = s) df) = count_list (map user df) s"
  by (induction df) auto

lemma sum_sender_counts:
  "(\<Sum>s\<in>set (map user df). length (filter (\<lambda>r. user r = s) df)) = length df"
proof -
  have "(\<Sum>s\<in>set (map user df). count_list (map user df) s) = length (map user df)"
    by (rule sum_count_set) simp_all
  then show ?thesis by (simp add: length_filter_user)
qed

lemma length_filter_full: "length (filter P xs) = length xs \<longleftrightarrow> (\<forall>x\<in>set xs. P x)"
proof (induction xs)
  case Nil
  then show ?case by simp
next
  case (Cons x xs)
  show ?case
  proof (cases "P x")
    case True
    with Cons show ?thesis by simp
  next
    case False
    have "length (filter P xs) \<noteq> Suc (length xs)"
      using length_filter_le [of P xs] by arith
    with False show ?thesis by simp
  qed
qed

lemma sum_message_counts:
  "sum_list (map (\<lambda>s. fst (fetch_stats find_urls s dt df)) (remdups (map user df))) =
     (if ''Overall'' \<in> set (map user df)
      then 2 * length df - length (filter (\<lambda>r. user r = ''Overall'') df)
      else length df)"
proof -
  let ?S = "set (map user df)"
  let ?c = "\<lambda>s. length (filter (\<lambda>r. user r = s) df)"
  let ?m = "\<lambda>s. fst (fetch_stats find_urls s dt df)"
  have m: "?m s = (if s = ''Overall'' then length df else ?c s)" for s
    by (simp add: fst_fetch_stats select_user_def)
  have l: "sum_list (map ?m (remdups (map user df))) = sum ?m ?S"
    by (simp add: sum_list_distinct_conv_sum_set)
  show ?thesis
  proof (cases "''Overall'' \<in> ?S")
    case False
    then have "sum ?m ?S = sum ?c ?S" by (intro sum.cong) (force simp: m)+
    with False l show ?thesis by (simp add: sum_sender_counts del: set_map)
  next
    case True
    then have split: "?S = insert ''Overall'' (?S - {''Overall''})" by blast
    have fin: "finite (?S - {''Overall''})" by simp
    have "sum ?m ?S = ?m ''Overall'' + sum ?m (?S - {''Overall''})"
      by (subst split, subst sum.insert [OF fin]) simp_all
    moreover have "sum ?m (?S - {''Overall''}) = sum ?c (?S - {''Overall''})"
      by (intro sum.cong) (auto simp: m)
    moreover have "sum ?c ?S = ?c ''Overall'' + sum ?c (?S - {''Overall''})"
      by (subst split, subst sum.insert [OF fin]) simp_all
    moreover have "sum ?c ?S = length df" by (rule sum_sender_counts)
    moreover have "?m ''Overall'' = length df" by (simp add: m)
    ultimately have "sum ?m ?S = 2 * length df - ?c ''Overall''" by simp
    with True l show ?thesis by (simp del: set_map)
  qed
qed

text \<open>
  C3 (as amended). The message counts that \<open>fetch_stats\<close> returns for the distinct
  senders of a table add up to the message count for \<open>'Overall'\<close> exactly when no sender
  is literally Overall, or every record is of that sender: for the sender Overall
  \<open>fetch_stats\<close> does not filter and counts the whole table.
\<close>

theorem sender_counts_add_up:
  "sum_list (map (\<lambda>s. fst (fetch_stats find_urls s dt df)) (remdups (map user df)))
     = fst (fetch_stats find_urls ''Overall'' dt df)
   \<longleftrightarrow> (''Overall'' \<notin> set (map user df) \<or> (\<forall>r\<in>set df. user r = ''Overall''))"
proof -
  let ?c = "length (filter (\<lambda>r. user r = ''Overall'') df)"
  let ?lhs = "sum_list (map (\<lambda>s. fst (fetch_stats find_urls s dt df)) (remdups (map user df)))"
  have rhs: "fst (fetch_stats find_urls ''Overall'' dt df) = length df"
    by (simp add: fst_fetch_stats select_user_Overall)
  show ?thesis
  proof (cases "''Overall'' \<in> set (map user df)")
    case False
    then have "?lhs = length df" by (simp only: sum_message_counts if_False)
    with False rhs show ?thesis by simp
  next
    case True
    then have l: "?lhs = 2 * length df - ?c" by (simp only: sum_message_counts if_True)
    have "?c \<le> length df" by simp
    then have "2 * length df - ?c = length df \<longleftrightarrow> ?c = length df" by arith
    also have "\<dots> \<longleftrightarrow> (\<forall>r\<in>set df. user r = ''Overall'')" by (rule length_filter_full)
    finally show ?thesis using True l rhs by simp
  qed
qed

theorem sender_counts_add_up_witness:
  "sum_list (map (\<lambda>s. fst (fetch_stats dot_tokens s str_dtype example_table))
      (remdups (map user example_table)))
     = fst (fetch_stats dot_tokens ''Overall'' str_dtype example_table)"
proof -
  have "''Overall'' \<notin> set (map user example_table)"
    by (simp add: example_table_def alice_hello_def bob_media_def alice_added_def)
  with sender_counts_add_up [where find_urls = dot_tokens and dt = str_dtype
      and df = example_table]
  show ?thesis by blast
qed

text \<open>With the senders Overall and Bob, one message each, the sum is 3 and the total 2.\<close>

theorem sender_named_Overall_counts_twice:
  "sum_list (map (\<lambda>s. fst (fetch_stats dot_tokens s str_dtype (preprocess overall_chat)))
      (remdups (map user (preprocess overall_chat)))) = 3
   \<and> fst (fetch_stats dot_tokens ''Overall'' str_dtype (preprocess overall_chat)) = 2"
  by (simp add: overall_chat_table overall_table_def overall_hi_def bob_yo_def
      fst_fetch_stats select_user_def)

section \<open>The views leave the tables as they are\<close>

lemma alloc_simps [simp]:
  "fst (alloc ob st) = length st"
  "snd (alloc ob st) = st @ [ob]"
  by (simp_all add: alloc_def)

lemma df_copy_simps [simp]:
  "fst (df_copy a st) = length st"
  "snd (df_copy a st) = st @ [st ! a]"
  by (simp_all add: df_copy_def)

lemma df_rows_of_user_fst [simp]: "fst (df_rows_of_user u a st) = length st"
  by (simp add: df_rows_of_user_def)

lemma df_rows_of_user_snd: "\<exists>ob. snd (df_rows_of_user u a st) = st @ [ob]"
  by (simp add: df_rows_of_user_def)

lemma rows_of_df_rows_of_user:
  "a < length st \<Longrightarrow>
   rows_of (snd (df_rows_of_user u a st) ! fst (df_rows_of_user u a st))
     = filter (\<lambda>r. user r = u) (rows_of (st ! a))"
  by (simp add: df_rows_of_user_def rows_of_def split: obj.splits)

lemma select_data_store:
  "\<exists>obs. snd (select_data u df st) = st @ obs
     \<and> length st \<le> fst (select_data u df st)
     \<and> fst (select_data u df st) < length (st @ obs)"
proof (cases "u = ''Overall''")
  case True
  then have "snd (select_data u df st) = st @ [st ! df]" "fst (select_data u df st) = length st"
    by (simp_all add: select_data_def split: prod.splits)
  then show ?thesis by simp
next
  case False
  obtain ob where ob: "snd (df_rows_of_user u (length st) (st @ [st ! df])) = (st @ [st ! df]) @ [ob]"
    using df_rows_of_user_snd by blast
  from False have "snd (select_data u df st) = st @ [st ! df, ob]"
      "fst (select_data u df st) = Suc (length st)"
    using ob by (simp_all add: select_data_def df_copy_def alloc_def split: prod.splits)
  then show ?thesis by simp
qed

lemma select_data_rows:
  assumes "df < length st"
  shows "rows_of (snd (select_data u df st) ! fst (select_data u df st))
     = select_user u (rows_of (st ! df))"
proof (cases "u = ''Overall''")
  case True
  then show ?thesis
    by (simp add: select_data_def select_user_def df_copy_def alloc_def split: prod.splits)
next
  case False
  have "rows_of (snd (df_rows_of_user u (length st) (st @ [st ! df]))
      ! fst (df_rows_of_user u (length st) (st @ [st ! df])))
    = filter (\<lambda>r. user r = u) (rows_of ((st @ [st ! df]) ! length st))"
    by (rule rows_of_df_rows_of_user) simp
  with False show ?thesis
    by (simp add: select_data_def select_user_def df_copy_def alloc_def split: prod.splits)
qed

lemma dtype_of_df_rows_of_user:
  "a < length st \<Longrightarrow>
   dtype_of (snd (df_rows_of_user u a st) ! fst (df_rows_of_user u a st)) = dtype_of (st ! a)"
  by (simp add: df_rows_of_user_def dtype_of_def split: obj.splits)

lemma select_data_dtype:
  assumes "df < length st"
  shows "dtype_of (snd (select_data u df st) ! fst (select_data u df st)) = dtype_of (st ! df)"
proof (cases "u = ''Overall''")
  case True
  then show ?thesis
    by (simp add: select_data_def df_copy_def alloc_def split: prod.splits)
next
  case False
  have "dtype_of (snd (df_rows_of_user u (length st) (st @ [st ! df]))
      ! fst (df_rows_of_user u (length st) (st @ [st ! df])))
    = dtype_of ((st @ [st ! df]) ! length st)"
    by (rule dtype_of_df_rows_of_user) simp
  with False show ?thesis
    by (simp add: select_data_def df_copy_def alloc_def split: prod.splits)
qed

lemma fetch_stats_st_frame:
  "a < length st \<Longrightarrow> snd (fetch_stats_st find_urls u df st) ! a = st ! a"
  using select_data_store [of u df st]
  by (auto simp: fetch_stats_st_def nth_append split: prod.splits)

lemma most_common_words_st_frame:
  "a < length st \<Longrightarrow> snd (most_common_words_st fs u df st) ! a = st ! a"
  using select_data_store [of u df st]
  by (auto simp: most_common_words_st_def nth_append split: prod.splits sum.splits)

lemma create_wordcloud_st_frame:
  "a < length st \<Longrightarrow> snd (create_wordcloud_st generate fs u df st) ! a = st ! a"
  using select_data_store [of u df st]
  by (auto simp: create_wordcloud_st_def nth_append split: prod.splits sum.splits)

lemma emoji_helper_st_frame:
  "a < length st \<Longrightarrow> snd (emoji_helper_st emoji_data u df st) ! a = st ! a"
  using select_data_store [of u df st]
  by (auto simp: emoji_helper_st_def nth_append split: prod.splits)

lemma monthly_timeline_st_frame:
  "a < length st \<Longrightarrow> snd (monthly_timeline_st u df st) ! a = st ! a"
  using select_data_store [of u df st]
  by (auto simp: monthly_timeline_st_def nth_append split: prod.splits)

lemma daily_timeline_st_frame:
  "a < length st \<Longrightarrow> snd (daily_timeline_st u df st) ! a = st ! a"
  using select_data_store [of u df st]
  by (auto simp: daily_timeline_st_def nth_append split: prod.splits)

lemma week_activity_map_st_frame:
  "a < length st \<Longrightarrow> snd (week_activity_map_st u df st) ! a = st ! a"
  using select_data_store [of u df st]
  by (auto simp: week_activity_map_st_def nth_append split: prod.splits)

lemma month_activity_map_st_frame:
  "a < length st \<Longrightarrow> snd (month_activity_map_st u df st) ! a = st ! a"
  using select_data_store [of u df st]
  by (auto simp: month_activity_map_st_def nth_append split: prod.splits)

lemma activity_heatmap_st_frame:
  "a < length st \<Longrightarrow> snd (activity_heatmap_st u df st) ! a = st ! a"
  using select_data_store [of u df st]
  by (auto simp: activity_heatmap_st_def df_set_period_def Let_def nth_append
      split: prod.splits)

lemma preprocessor_daily_timeline_frame:
  "a < length st \<Longrightarrow> snd (preprocessor_daily_timeline u df st) ! a = st ! a"
  using df_rows_of_user_snd [of u df st]
  by (auto simp: preprocessor_daily_timeline_def df_rename_message_def alloc_def nth_append
      split: prod.splits)


text \<open>The views on a store compute what the views on a list of rows compute.\<close>

lemma heatmap_st_result:
  assumes "df < length st"
  shows "fst (activity_heatmap_st u df st) = activity_heatmap u (rows_of (st ! df))"
proof -
  obtain obs where obs: "snd (select_data u df st) = st @ obs"
      "length st \<le> fst (select_data u df st)"
      "fst (select_data u df st) < length (st @ obs)"
    using select_data_store by blast
  let ?d = "fst (select_data u df st)"
  let ?st1 = "snd (select_data u df st)"
  let ?st2 = "df_set_period ?d ?st1"
  have rows1: "rows_of (?st1 ! ?d) = select_user u (rows_of (st ! df))"
    using assms by (rule select_data_rows)
  have d: "?d < length ?st1" using obs by simp
  have rows2: "rows_of (?st2 ! ?d) = rows_of (?st1 ! ?d)"
    using d by (simp add: df_set_period_def rows_of_def split: obj.splits)
  have per2: "period_of (?st2 ! ?d) = map (\<lambda>r. period (hour r)) (rows_of (?st1 ! ?d))"
    using d by (simp add: df_set_period_def rows_of_def period_of_def split: obj.splits)
  have "fst (activity_heatmap_st u df st)
      = reindex weekdays (fillna0 (pivot_count (zip (map weekday (rows_of (?st2 ! ?d)))
          (period_of (?st2 ! ?d)))))"
    by (simp add: activity_heatmap_st_def Let_def split: prod.splits)
  then show ?thesis
    by (simp add: rows2 per2 rows1 activity_heatmap_def heatmap_of_def)
qed

lemma store_views_results:
  assumes "df < length st"
  shows "fst (fetch_stats_st find_urls u df st)
          = fetch_stats find_urls u (dtype_of (st ! df)) (rows_of (st ! df))"
    and "fst (most_busy_users_st df st) = most_busy_users (rows_of (st ! df))"
    and "fst (most_common_words_st fs u df st) = most_common_words fs u (rows_of (st ! df))"
    and "fst (create_wordcloud_st generate fs u df st)
          = create_wordcloud generate fs u (rows_of (st ! df))"
    and "fst (emoji_helper_st emoji_data u df st) = emoji_helper emoji_data u (rows_of (st ! df))"
    and "fst (monthly_timeline_st u df st) = monthly_timeline u (rows_of (st ! df))"
    and "fst (daily_timeline_st u df st) = daily_timeline u (rows_of (st ! df))"
    and "fst (week_activity_map_st u df st) = week_activity_map u (rows_of (st ! df))"
    and "fst (month_activity_map_st u df st) = month_activity_map u (rows_of (st ! df))"
  using select_data_rows [OF assms, of u] select_data_dtype [OF assms, of u]
  by (simp_all add: fetch_stats_st_def fetch_stats_def most_busy_users_st_def
      most_common_words_st_def most_common_words_def create_wordcloud_st_def
      create_wordcloud_def emoji_helper_st_def emoji_helper_def monthly_timeline_st_def
      monthly_timeline_def daily_timeline_st_def daily_timeline_def week_activity_map_st_def
      week_activity_map_def month_activity_map_st_def month_activity_map_def
      case_prod_beta split: sum.splits)

lemma preprocessor_daily_timeline_result:
  assumes "df < length st"
  shows "snd (preprocessor_daily_timeline u df st) ! fst (preprocessor_daily_timeline u df st)
     = Timeline ''message_count'' (daily_timeline u (rows_of (st ! df)))"
proof (cases "u = ''Overall''")
  case True
  then show ?thesis
    by (simp add: preprocessor_daily_timeline_def df_rename_message_def alloc_def
        daily_timeline_def select_user_def nth_append)
next
  case False
  obtain ob where ob: "snd (df_rows_of_user u df st) = st @ [ob]"
    using df_rows_of_user_snd by blast
  have "rows_of (snd (df_rows_of_user u df st) ! fst (df_rows_of_user u df st))
      = filter (\<lambda>r. user r = u) (rows_of (st ! df))"
    using assms by (rule rows_of_df_rows_of_user)
  with ob have "rows_of ob = filter (\<lambda>r. user r = u) (rows_of (st ! df))" by simp
  with False ob show ?thesis
    by (simp add: preprocessor_daily_timeline_def df_rename_message_def alloc_def
        daily_timeline_def select_user_def nth_append case_prod_beta)
qed

text \<open>
  C9. No view changes an object that existed before the call, so the caller's table
  (the object at \<open>df\<close>) has the same rows and columns afterwards: the views of helper.py
  work on a copy, also \<open>activity_heatmap\<close> when it adds the column \<open>period\<close>, and
  \<open>daily_timeline\<close> of preprocessor.py renames a column of the frame it has built.
\<close>

theorem views_keep_the_tables:
  assumes "a < length st"
  shows "snd (fetch_stats_st find_urls u df st) ! a = st ! a
    \<and> snd (most_busy_users_st df st) ! a = st ! a
    \<and> snd (most_common_words_st fs u df st) ! a = st ! a
    \<and> snd (create_wordcloud_st generate fs u df st) ! a = st ! a
    \<and> snd (emoji_helper_st emoji_data u df st) ! a = st ! a
    \<and> snd (monthly_timeline_st u df st) ! a = st ! a
    \<and> snd (daily_timeline_st u df st) ! a = st ! a
    \<and> snd (week_activity_map_st u df st) ! a = st ! a
    \<and> snd (month_activity_map_st u df st) ! a = st ! a
    \<and> snd (activity_heatmap_st u df st) ! a = st ! a
    \<and> snd (preprocessor_daily_timeline u df st) ! a = st ! a"
  using assms
  by (simp add: fetch_stats_st_frame most_busy_users_st_def most_common_words_st_frame
      create_wordcloud_st_frame emoji_helper_st_frame monthly_timeline_st_frame
      daily_timeline_st_frame week_activity_map_st_frame month_activity_map_st_frame
      activity_heatmap_st_frame preprocessor_daily_timeline_frame)

theorem views_keep_the_tables_witness:
  "snd (activity_heatmap_st ''Alice'' 0 [Table str_dtype example_table None]) ! 0
     = Table str_dtype example_table None
   \<and> snd (preprocessor_daily_timeline ''Overall'' 0 [Table str_dtype example_table None]) ! 0
     = Table str_dtype example_table None
   \<and> snd (fetch_stats_st dot_tokens ''Overall'' 0 [Table str_dtype example_table None]) ! 0
     = Table str_dtype example_table None"
  using views_keep_the_tables [where a = 0 and st = "[Table str_dtype example_table None]"
      and find_urls = dot_tokens and u = "''Alice''" and df = 0 and fs = Map.empty
      and generate = id and emoji_data = "{}"]
    views_keep_the_tables [where a = 0 and st = "[Table str_dtype example_table None]"
      and find_urls = dot_tokens and u = "''Overall''" and df = 0 and fs = Map.empty
      and generate = id and emoji_data = "{}"]
  by simp

section \<open>The selected user Overall\<close>

text \<open>
  C10. With \<open>selected_user = 'Overall'\<close> every view skips the filter and computes over
  all rows of the table, also when a sender of the table is called Overall. So no
  call selects the rows of that sender: whatever \<open>selected_user\<close> is, the rows a view
  works on are the whole table or hold no row of the sender Overall, and when the
  table has rows of Overall and of someone else they are never exactly the rows of
  Overall. (\<open>daily_timeline\<close> of preprocessor.py selects the same rows:
  \<open>preprocessor_daily_timeline_result\<close>.)
\<close>

theorem overall_never_selects_a_sender:
  "select_user ''Overall'' df = df
   \<and> fetch_stats find_urls ''Overall'' dt df = stats_of find_urls dt df
   \<and> most_common_words fs ''Overall'' df
       = (case load_stop_words fs of Inl e \<Rightarrow> Inl e
          | Inr stop_words \<Rightarrow> Inr (common_words_of stop_words df))
   \<and> create_wordcloud generate fs ''Overall'' df
       = (case load_stop_words fs of Inl e \<Rightarrow> Inl e
          | Inr stop_words \<Rightarrow> Inr (generate (wordcloud_text stop_words df)))
   \<and> emoji_helper emoji_data ''Overall'' df = emojis_of emoji_data df
   \<and> monthly_timeline ''Overall'' df = monthly_of df
   \<and> daily_timeline ''Overall'' df = daily_of df
   \<and> week_activity_map ''Overall'' df = value_counts (map weekday df)
   \<and> month_activity_map ''Overall'' df = value_counts (map month df)
   \<and> activity_heatmap ''Overall'' df = heatmap_of df
   \<and> (\<forall>u. select_user u df = df \<or> (\<forall>r\<in>set (select_user u df). user r \<noteq> ''Overall''))
   \<and> ((\<exists>r\<in>set df. user r = ''Overall'') \<and> (\<exists>r\<in>set df. user r \<noteq> ''Overall'')
        \<longrightarrow> (\<forall>u. select_user u df \<noteq> filter (\<lambda>r. user r = ''Overall'') df))"
proof -
  have views: "fetch_stats find_urls ''Overall'' dt df = stats_of find_urls dt df"
    "most_common_words fs ''Overall'' df
       = (case load_stop_words fs of Inl e \<Rightarrow> Inl e
          | Inr stop_words \<Rightarrow> Inr (common_words_of stop_words df))"
    "create_wordcloud generate fs ''Overall'' df
       = (case load_stop_words fs of Inl e \<Rightarrow> Inl e
          | Inr stop_words \<Rightarrow> Inr (generate (wordcloud_text stop_words df)))"
    "emoji_helper emoji_data ''Overall'' df = emojis_of emoji_data df"
    "monthly_timeline ''Overall'' df = monthly_of df"
    "daily_timeline ''Overall'' df = daily_of df"
    "week_activity_map ''Overall'' df = value_counts (map weekday df)"
    "month_activity_map ''Overall'' df = value_counts (map month df)"
    "activity_heatmap ''Overall'' df = heatmap_of df"
    by (simp_all add: select_user_Overall fetch_stats_def most_common_words_def
        create_wordcloud_def emoji_helper_def monthly_timeline_def daily_timeline_def
        week_activity_map_def month_activity_map_def activity_heatmap_def
        split: sum.splits)
  have either: "select_user u df = df \<or> (\<forall>r\<in>set (select_user u df). user r \<noteq> ''Overall'')"
    for u
    by (auto simp: select_user_def)
  have never: "select_user u df \<noteq> filter (\<lambda>r. user r = ''Overall'') df"
    if a: "a \<in> set df" "user a = ''Overall''" and b: "b \<in> set df" "user b \<noteq> ''Overall''" for u a b
  proof (cases "u = ''Overall''")
    case True
    from b have "b \<notin> set (filter (\<lambda>r. user r = ''Overall'') df)" by simp
    moreover from True b have "b \<in> set (select_user u df)" by (simp add: select_user_def)
    ultimately show ?thesis by metis
  next
    case False
    from a have "a \<in> set (filter (\<lambda>r. user r = ''Overall'') df)" by simp
    moreover from False a have "a \<notin> set (select_user u df)" by (simp add: select_user_def)
    ultimately show ?thesis by metis
  qed
  from views either never show ?thesis
    by (simp only: select_user_Overall) blast
qed

theorem overall_never_selects_a_sender_witness:
  "fetch_stats dot_tokens ''Overall'' str_dtype overall_table
     = stats_of dot_tokens str_dtype overall_table
   \<and> fst (fetch_stats dot_tokens ''Overall'' str_dtype overall_table) = 2
   \<and> select_user ''Overall'' overall_table \<noteq> [overall_hi]
   \<and> select_user ''Bob'' overall_table \<noteq> [overall_hi]"
proof -
  have t: "(\<exists>r\<in>set overall_table. user r = ''Overall'')
      \<and> (\<exists>r\<in>set overall_table. user r \<noteq> ''Overall'')"
    by (simp add: overall_table_def overall_hi_def bob_yo_def)
  have f: "filter (\<lambda>r. user r = ''Overall'') overall_table = [overall_hi]"
    by (simp add: overall_table_def overall_hi_def bob_yo_def)
  have n: "fst (stats_of dot_tokens str_dtype overall_table) = 2"
    by (simp add: stats_of_def overall_table_def)
  note th = overall_never_selects_a_sender [where df = overall_table and dt = str_dtype
      and find_urls = dot_tokens and fs = Map.empty and generate = id and emoji_data = "{}"]
  from th have s: "fetch_stats dot_tokens ''Overall'' str_dtype overall_table
      = stats_of dot_tokens str_dtype overall_table"
    by blast
  from th t have "\<forall>u. select_user u overall_table
      \<noteq> filter (\<lambda>r. user r = ''Overall'') overall_table"
    by blast
  with f have "select_user ''Overall'' overall_table \<noteq> [overall_hi]"
      "select_user ''Bob'' overall_table \<noteq> [overall_hi]"
    by simp_all
  with s n show ?thesis by simp
qed

section \<open>Counters\<close>

lemma map_fst_bump:
  "map fst (bump k m) = (if k \<in> fst ` set m then map fst m else map fst m @ [k])"
  by (induction m) auto

lemma distinct_bump: "distinct (map fst m) \<Longrightarrow> distinct (map fst (bump k m))"
  by (simp add: map_fst_bump)

lemma map_of_bump:
  "map_of (bump k m) = (map_of m)(k \<mapsto> (case map_of m k of None \<Rightarrow> 1 | Some n \<Rightarrow> Suc n))"
  by (induction m) (auto simp: fun_eq_iff)

lemma foldl_bump_distinct:
  "distinct (map fst m) \<Longrightarrow> distinct (map fst (foldl (\<lambda>m k. bump k m) m xs))"
  by (induction xs arbitrary: m) (simp_all add: distinct_bump)

lemma foldl_bump_keys:
  "fst ` set (foldl (\<lambda>m k. bump k m) m xs) = fst ` set m \<union> set xs"
proof (induction xs arbitrary: m)
  case Nil
  then show ?case by simp
next
  case (Cons x xs)
  have "fst ` set (bump x m) = insert x (fst ` set m)"
    using map_fst_bump [of x m] by (metis (no_types, lifting) insert_absorb list.set_map
        set_append list.simps(15) Un_insert_right sup_bot.right_neutral empty_set)
  with Cons.IH [of "bump x m"] show ?case by auto
qed

lemma foldl_bump_lookup:
  "map_of (foldl (\<lambda>m k. bump k m) m xs) k =
     (if count_list xs k = 0 then map_of m k
      else Some (count_list xs k + (case map_of m k of None \<Rightarrow> 0 | Some n \<Rightarrow> n)))"
proof (induction xs arbitrary: m)
  case Nil
  then show ?case by simp
next
  case (Cons x xs)
  show ?case
    by (simp add: Cons.IH map_of_bump split: option.splits)
qed

lemma distinct_Counter: "distinct (map fst (Counter xs))"
  by (simp add: Counter_def foldl_bump_distinct)

lemma set_Counter: "set (Counter xs) = (\<lambda>k. (k, count_list xs k)) ` set xs"
proof (rule set_eqI)
  fix p :: "'a \<times> nat"
  obtain k n where p: "p = (k, n)" by (cases p)
  have "(k, n) \<in> set (Counter xs) \<longleftrightarrow> map_of (Counter xs) k = Some n"
    using distinct_Counter [of xs] by simp
  also have "\<dots> \<longleftrightarrow> count_list xs k \<noteq> 0 \<and> n = count_list xs k"
    by (auto simp: Counter_def foldl_bump_lookup)
  also have "\<dots> \<longleftrightarrow> k \<in> set xs \<and> n = count_list xs k"
    by (simp add: count_list_0_iff)
  finally show "p \<in> set (Counter xs) \<longleftrightarrow> p \<in> (\<lambda>k. (k, count_list xs k)) ` set xs"
    using p by auto
qed

lemma set_sort_desc [simp]: "set (sort_desc ps) = set ps"
  by (simp add: sort_desc_def)

lemma distinct_map_fst_sort_desc:
  "distinct (map fst (sort_desc ps)) = distinct (map fst ps)"
  by (simp add: distinct_map sort_desc_def)

lemma sorted_sort_desc: "sorted_wrt (\<lambda>p q. snd q \<le> snd p) (sort_desc ps)"
proof -
  have "sorted (map (\<lambda>p. - int (snd p)) (sort_desc ps))"
    unfolding sort_desc_def by (rule sorted_sort_key)
  then show ?thesis by (simp add: sorted_map)
qed


section \<open>most_busy_users\<close>

lemma count_list_filter:
  "count_list (filter P xs) k = (if P k then count_list xs k else 0)"
  by (induction xs) auto

lemma value_counts_set: "set (value_counts xs) = (\<lambda>k. (k, count_list xs k)) ` set xs"
  by (simp add: value_counts_def set_Counter)

lemma value_counts_distinct: "distinct (map fst (value_counts xs))"
  by (simp add: value_counts_def distinct_map_fst_sort_desc distinct_Counter)

lemma value_counts_sorted: "sorted_wrt (\<lambda>p q. snd q \<le> snd p) (value_counts xs)"
  by (simp add: value_counts_def sorted_sort_desc)

lemma sum_counts_without:
  "sum_list (map snd (filter (\<lambda>p. fst p \<noteq> s) (value_counts xs)))
     = length (filter (\<lambda>x. x \<noteq> s) xs)"
proof -
  let ?f = "\<lambda>k. (k, count_list xs k)"
  let ?uc = "filter (\<lambda>p. fst p \<noteq> s) (value_counts xs)"
  let ?ys = "filter (\<lambda>x. x \<noteq> s) xs"
  have "distinct (value_counts xs)"
    using value_counts_distinct [of xs] by (simp only: distinct_map)
  then have d: "distinct ?uc" by (rule distinct_filter)
  have "set ?uc = {p \<in> ?f ` set xs. fst p \<noteq> s}"
    by (simp only: set_filter value_counts_set)
  also have "\<dots> = ?f ` {k \<in> set xs. k \<noteq> s}" by force
  also have "{k \<in> set xs. k \<noteq> s} = set ?ys" by (simp only: set_filter)
  finally have set_uc: "set ?uc = ?f ` set ?ys" .
  have inj: "inj_on ?f (set ?ys)"
    by (rule inj_onI) (simp only: prod.inject)
  have "sum_list (map snd ?uc) = sum snd (set ?uc)"
    using d by (rule sum_list_distinct_conv_sum_set)
  also have "\<dots> = sum (snd \<circ> ?f) (set ?ys)"
    by (simp only: set_uc sum.reindex [OF inj])
  also have "\<dots> = sum (count_list ?ys) (set ?ys)"
  proof (rule sum.cong)
    fix k assume "k \<in> set ?ys"
    then have "k \<noteq> s" by simp
    then show "(snd \<circ> ?f) k = count_list ?ys k" by (simp add: count_list_filter)
  qed (rule refl)
  also have "\<dots> = length ?ys"
    by (rule sum_count_set) (rule subset_refl, rule finite_set)
  finally show ?thesis .
qed

lemma busy_table_counts:
  "value_counts (map user busy_table) = [(''Bob'', 137), (''Alice'', 23)]"
  by (simp add: busy_table_def bob_yo_def alice_hello_def value_counts_def Counter_def
      sort_desc_def numeral_eq_Suc)

lemma busy_table_percents:
  "percent_of 137 160 = fl (8562 / 100)" "percent_of 23 160 = fl (1437 / 100)"
  by (simp_all add: fl_eval)

lemma busy_table_floats:
  "fl (1437 / 100) = 8089590830664253 / 2 ^ 49" "fl (1438 / 100) = 8095220330198467 / 2 ^ 49"
  by (simp_all add: fl_eval)

text \<open>
  C8 (as amended). \<open>most_busy_users\<close> returns one row per sender other than the
  sentinel, with the number of the sender's messages, the larger counts first; the
  sentinel has no row. The percentage table has the same senders in the same order.
  For a table of at most \<open>10^11\<close> messages that are not the sentinel's, each percentage
  is the float nearest to a number of two decimal places that lies within half a
  hundredth of the sender's share of those messages, so the percentage lies within
  \<open>0.005 + 101 / 2^53\<close> of the share. Which of the two neighbours it is when the share
  lies halfway between them is decided by the rounding of the float operations.
\<close>

theorem most_busy_users_ranking:
  "sorted_wrt (\<lambda>p q. snd q \<le> snd p) (fst (most_busy_users df))
   \<and> distinct (map fst (fst (most_busy_users df)))
   \<and> set (fst (most_busy_users df))
       = (\<lambda>s. (s, length (filter (\<lambda>r. user r = s) df)))
           ` (user ` set df - {''group_notification''})
   \<and> map fst (snd (most_busy_users df)) = map fst (fst (most_busy_users df))
   \<and> (length (filter (\<lambda>r. user r \<noteq> ''group_notification'') df) \<le> 10 ^ 11 \<longrightarrow>
       (\<forall>i<length (fst (most_busy_users df)).
         (\<exists>k::int. snd (snd (most_busy_users df) ! i) = fl (of_int k / 100)
           \<and> \<bar>(of_int k / 100 :: rat)
               - of_nat (snd (fst (most_busy_users df) ! i))
                 / of_nat (length (filter (\<lambda>r. user r \<noteq> ''group_notification'') df)) * 100\<bar>
             \<le> 1 / 200)
         \<and> \<bar>snd (snd (most_busy_users df) ! i)
             - of_nat (snd (fst (most_busy_users df) ! i))
               / of_nat (length (filter (\<lambda>r. user r \<noteq> ''group_notification'') df)) * 100\<bar>
           \<le> 1 / 200 + 101 / 2 ^ 53))"
proof -
  let ?uc = "filter (\<lambda>p. fst p \<noteq> ''group_notification'') (value_counts (map user df))"
  let ?total = "length (filter (\<lambda>r. user r \<noteq> ''group_notification'') df)"
  have total: "sum_list (map snd ?uc) = ?total"
    by (simp add: sum_counts_without filter_map comp_def)
  have uc: "fst (most_busy_users df) = ?uc"
    by (simp add: most_busy_users_def Let_def)
  have pd: "snd (most_busy_users df) = map (\<lambda>p. (fst p, percent_of (snd p) ?total)) ?uc"
    by (simp add: most_busy_users_def Let_def total)
  have 1: "sorted_wrt (\<lambda>p q. snd q \<le> snd p) ?uc"
    using value_counts_sorted by (rule sorted_wrt_filter)
  have 2: "distinct (map fst ?uc)"
    using value_counts_distinct by (rule distinct_map_filter)
  have 3: "set ?uc = (\<lambda>s. (s, length (filter (\<lambda>r. user r = s) df)))
           ` (user ` set df - {''group_notification''})"
    by (auto simp: value_counts_set length_filter_user)
  have 4: "map fst (snd (most_busy_users df)) = map fst ?uc"
    by (simp add: pd comp_def)
  have 5: "(\<exists>k::int. snd (snd (most_busy_users df) ! i) = fl (of_int k / 100)
           \<and> \<bar>(of_int k / 100 :: rat) - of_nat (snd (?uc ! i)) / of_nat ?total * 100\<bar>
             \<le> 1 / 200)
         \<and> \<bar>snd (snd (most_busy_users df) ! i)
             - of_nat (snd (?uc ! i)) / of_nat ?total * 100\<bar> \<le> 1 / 200 + 101 / 2 ^ 53"
    if small: "?total \<le> 10 ^ 11" and i: "i < length ?uc" for i
  proof -
    let ?c = "snd (?uc ! i)"
    from i have mem: "?uc ! i \<in> set ?uc" by (rule nth_mem)
    with 3 have "?uc ! i \<in> (\<lambda>s. (s, length (filter (\<lambda>r. user r = s) df)))
           ` (user ` set df - {''group_notification''})"
      by (rule subst)
    then obtain s where s0: "s \<in> user ` set df - {''group_notification''}"
        "?uc ! i = (s, length (filter (\<lambda>r. user r = s) df))"
      by (rule imageE)
    then have s: "s \<in> user ` set df" "?c = length (filter (\<lambda>r. user r = s) df)"
      by simp_all
    from s(1) obtain r where "r \<in> set df" "user r = s" by auto
    then have "filter (\<lambda>r. user r = s) df \<noteq> []" by (auto simp: filter_empty_conv)
    with s(2) have pos: "0 < ?c" by simp
    from mem have "snd (?uc ! i) \<in> snd ` set ?uc" by (rule imageI)
    then have "?c \<in> set (map snd ?uc)" by (simp only: set_map)
    then have "?c \<le> sum_list (map snd ?uc)" by (rule member_le_sum_list) simp
    then have le: "?c \<le> ?total" by (simp only: total)
    from i have e: "snd (snd (most_busy_users df) ! i) = percent_of ?c ?total"
      by (simp add: pd)
    from pos le small show ?thesis unfolding e by (rule percent_row)
  qed
  then have 6: "?total \<le> 10 ^ 11 \<longrightarrow> (\<forall>i<length ?uc.
         (\<exists>k::int. snd (snd (most_busy_users df) ! i) = fl (of_int k / 100)
           \<and> \<bar>(of_int k / 100 :: rat) - of_nat (snd (?uc ! i)) / of_nat ?total * 100\<bar>
             \<le> 1 / 200)
         \<and> \<bar>snd (snd (most_busy_users df) ! i)
             - of_nat (snd (?uc ! i)) / of_nat ?total * 100\<bar> \<le> 1 / 200 + 101 / 2 ^ 53)"
    by blast
  show ?thesis unfolding uc using 1 2 3 4 6 by (intro conjI) assumption+
qed

lemma example_table_ranking:
  "most_busy_users example_table
     = ([(''Alice'', 1), (''Bob'', 1)], [(''Alice'', 50), (''Bob'', 50)])"
  by (simp add: most_busy_users_def example_table_def alice_hello_def bob_media_def
      alice_added_def example_chat_counts percent_half)

theorem most_busy_users_ranking_witness:
  "fst (most_busy_users example_table) = [(''Alice'', 1), (''Bob'', 1)]
   \<and> map fst (snd (most_busy_users example_table)) = [''Alice'', ''Bob'']
   \<and> ''group_notification'' \<notin> fst ` set (fst (most_busy_users example_table))
   \<and> length (filter (\<lambda>r. user r \<noteq> ''group_notification'') example_table) = 2
   \<and> \<bar>snd (snd (most_busy_users example_table) ! 0) - 1 / 2 * 100\<bar> \<le> 1 / 200 + 101 / 2 ^ 53"
proof -
  note th = most_busy_users_ranking [of example_table]
  have m: "map fst (snd (most_busy_users example_table))
       = map fst (fst (most_busy_users example_table))"
    by (rule th [THEN conjunct2, THEN conjunct2, THEN conjunct2, THEN conjunct1])
  have f: "fst (most_busy_users example_table) = [(''Alice'', 1), (''Bob'', 1)]"
    by (simp add: example_table_ranking)
  have n: "length (filter (\<lambda>r. user r \<noteq> ''group_notification'') example_table) = 2"
    by (simp add: example_table_def alice_hello_def bob_media_def alice_added_def)
  have "\<forall>i<length (fst (most_busy_users example_table)).
         (\<exists>k::int. snd (snd (most_busy_users example_table) ! i) = fl (of_int k / 100)
           \<and> \<bar>(of_int k / 100 :: rat)
               - of_nat (snd (fst (most_busy_users example_table) ! i))
                 / of_nat (length (filter (\<lambda>r. user r \<noteq> ''group_notification'')
                     example_table)) * 100\<bar>
             \<le> 1 / 200)
         \<and> \<bar>snd (snd (most_busy_users example_table) ! i)
             - of_nat (snd (fst (most_busy_users example_table) ! i))
               / of_nat (length (filter (\<lambda>r. user r \<noteq> ''group_notification'')
                   example_table)) * 100\<bar>
           \<le> 1 / 200 + 101 / 2 ^ 53"
    by (rule th [THEN conjunct2, THEN conjunct2, THEN conjunct2, THEN conjunct2, THEN mp])
      (simp add: n)
  moreover have "0 < length (fst (most_busy_users example_table))" by (simp add: f)
  ultimately have "\<bar>snd (snd (most_busy_users example_table) ! 0)
             - of_nat (snd (fst (most_busy_users example_table) ! 0))
               / of_nat (length (filter (\<lambda>r. user r \<noteq> ''group_notification'')
                   example_table)) * 100\<bar>
           \<le> 1 / 200 + 101 / 2 ^ 53"
    by blast
  then have "\<bar>snd (snd (most_busy_users example_table) ! 0) - 1 / 2 * 100\<bar>
      \<le> 1 / 200 + 101 / 2 ^ 53"
    by (simp only: f n) simp
  with m f n show ?thesis by simp
qed

text \<open>
  With 137 messages of Bob and 23 of Alice the share of Alice is 14.375, which rounds
  to 14.38; the floats give \<open>23 / 160 * 100 = 14.374999999999998\<close>, and the percentage
  of Alice is the float nearest to 14.37. It is neither 14.38 nor the float nearest to
  14.38, and it lies further than half a hundredth from the share.
\<close>

theorem busy_table_percent_rounds_down:
  "most_busy_users busy_table
     = ([(''Bob'', 137), (''Alice'', 23)],
        [(''Bob'', fl (8562 / 100)), (''Alice'', fl (1437 / 100))])
   \<and> spec_round2 (23 / 160 * 100) = 1438 / 100
   \<and> fl (1437 / 100) \<noteq> spec_round2 (23 / 160 * 100)
   \<and> fl (1437 / 100) \<noteq> fl (spec_round2 (23 / 160 * 100))
   \<and> 1 / 200 < \<bar>fl (1437 / 100) - 23 / 160 * 100\<bar>"
proof -
  have "most_busy_users busy_table
     = ([(''Bob'', 137), (''Alice'', 23)],
        [(''Bob'', fl (8562 / 100)), (''Alice'', fl (1437 / 100))])"
    by (simp add: most_busy_users_def busy_table_counts busy_table_percents)
  moreover have r: "spec_round2 (23 / 160 * 100) = 1438 / 100"
    by (simp add: spec_round2_def rint_def floor_rat_numeral)
  moreover have "fl (1437 / 100) \<noteq> spec_round2 (23 / 160 * 100)"
    "fl (1437 / 100) \<noteq> fl (spec_round2 (23 / 160 * 100))"
    "1 / 200 < \<bar>fl (1437 / 100) - 23 / 160 * 100\<bar>"
    by (simp_all only: r busy_table_floats) simp_all
  ultimately show ?thesis by (intro conjI)
qed

section \<open>activity_heatmap\<close>

lemma row_of_map:
  "row_of l ks (map f ks) = (if l \<in> set ks then Some (f l) else None)"
  by (induction ks) auto

lemma count_list_zip:
  "count_list (zip (map f xs) (map g xs)) (a, b) = length (filter (\<lambda>x. f x = a \<and> g x = b) xs)"
  by (induction xs) auto

lemma heatmap_of_shape:
  "hm_index (heatmap_of data) = weekdays"
  "hm_columns (heatmap_of data) = sort (remdups (map (\<lambda>r. period (hour r)) data))"
  by (simp_all add: heatmap_of_def reindex_def fillna0_def pivot_count_def Let_def)

lemma heatmap_of_values:
  "hm_values (heatmap_of data) =
     map (\<lambda>l. if l \<in> weekday ` set data
               then map (\<lambda>p. Num (length (filter (\<lambda>r. weekday r = l \<and> period (hour r) = p) data)))
                      (hm_columns (heatmap_of data))
               else replicate (length (hm_columns (heatmap_of data))) NaN) weekdays"
proof -
  let ?wps = "zip (map weekday data) (map (\<lambda>r. period (hour r)) data)"
  let ?cols = "sort (remdups (map (\<lambda>r. period (hour r)) data))"
  let ?idx = "sort (remdups (map weekday data))"
  let ?f = "\<lambda>w. map (\<lambda>p. Num (count_list ?wps (w, p))) ?cols"
  have filled: "hm_values (fillna0 (pivot_count ?wps)) = map ?f ?idx"
    by (simp add: fillna0_def pivot_count_def Let_def comp_def)
  have idx: "hm_index (fillna0 (pivot_count ?wps)) = ?idx"
    and cols: "hm_columns (fillna0 (pivot_count ?wps)) = ?cols"
    by (simp_all add: fillna0_def pivot_count_def Let_def)
  have row: "row_of l ?idx (map ?f ?idx) = (if l \<in> weekday ` set data then Some (?f l) else None)"
    for l
    by (simp add: row_of_map)
  have pick: "(case row_of l ?idx (map ?f ?idx) of None \<Rightarrow> X | Some v \<Rightarrow> v)
      = (if l \<in> weekday ` set data then ?f l else X)" for l X
    by (cases "l \<in> weekday ` set data") (simp_all only: row if_True if_False option.case)
  have "hm_values (heatmap_of data)
      = map (\<lambda>l. case row_of l ?idx (map ?f ?idx) of
                    None \<Rightarrow> replicate (length ?cols) NaN | Some v \<Rightarrow> v) weekdays"
    by (simp only: heatmap_of_def reindex_def Let_def filled idx cols heatmap.simps)
  also have "\<dots> = map (\<lambda>l. if l \<in> weekday ` set data then ?f l
                              else replicate (length ?cols) NaN) weekdays"
    by (simp only: pick)
  finally show ?thesis
    by (simp only: heatmap_of_shape count_list_zip)
qed


lemma sum_list_indicator:
  "distinct ks \<Longrightarrow>
   sum_list (map (\<lambda>k. if c \<and> q = k then 1 else 0) ks) = (if c \<and> q \<in> set ks then 1 else (0::nat))"
  by (induction ks) auto

lemma sum_list_group_counts:
  assumes "distinct ks" and "\<forall>x\<in>set xs. g x \<in> set ks"
  shows "sum_list (map (\<lambda>k. length (filter (\<lambda>x. f x = l \<and> g x = k) xs)) ks)
     = length (filter (\<lambda>x. f x = l) xs)"
  using assms(2)
proof (induction xs)
  case Nil
  then show ?case by simp
next
  case (Cons x xs)
  have "sum_list (map (\<lambda>k. length (filter (\<lambda>x. f x = l \<and> g x = k) (x # xs))) ks)
      = sum_list (map (\<lambda>k. (if f x = l \<and> g x = k then 1 else 0)
          + length (filter (\<lambda>x. f x = l \<and> g x = k) xs)) ks)"
    by (intro arg_cong [where f = sum_list] map_cong refl) simp
  also have "\<dots> = sum_list (map (\<lambda>k. if f x = l \<and> g x = k then 1 else 0) ks)
      + sum_list (map (\<lambda>k. length (filter (\<lambda>x. f x = l \<and> g x = k) xs)) ks)"
    by (rule sum_list_addf)
  also have "\<dots> = (if f x = l then 1 else 0) + length (filter (\<lambda>x. f x = l) xs)"
    using Cons assms(1) by (simp add: sum_list_indicator)
  finally show ?case by simp
qed

lemma sum_list_counts:
  assumes "distinct ks" and "\<forall>x\<in>set xs. g x \<in> set ks"
  shows "sum_list (map (\<lambda>k. length (filter (\<lambda>x. g x = k) xs)) ks) = length xs"
  using sum_list_group_counts [OF assms, of "\<lambda>x. ()" "()"] by simp

lemma distinct_weekdays: "distinct weekdays" and length_weekdays: "length weekdays = 7"
  by (simp_all add: weekdays_def)

lemma heatmap_of_total:
  assumes "\<forall>r\<in>set data. weekday r \<in> set weekdays"
  shows "grid_total (heatmap_of data) = length data"
proof -
  let ?cols = "hm_columns (heatmap_of data)"
  let ?cnt = "\<lambda>l p. length (filter (\<lambda>r. weekday r = l \<and> period (hour r) = p) data)"
  let ?row = "\<lambda>l. if l \<in> weekday ` set data then map (\<lambda>p. Num (?cnt l p)) ?cols
                   else replicate (length ?cols) NaN"
  have cols: "distinct ?cols" "\<forall>r\<in>set data. period (hour r) \<in> set ?cols"
    by (simp_all add: heatmap_of_shape)
  have row: "sum_list (map cell_count (?row l)) = length (filter (\<lambda>r. weekday r = l) data)" for l
  proof (cases "l \<in> weekday ` set data")
    case True
    then have "sum_list (map cell_count (?row l)) = sum_list (map (\<lambda>p. ?cnt l p) ?cols)"
      by (simp add: comp_def)
    also have "\<dots> = length (filter (\<lambda>r. weekday r = l) data)"
      using cols by (rule sum_list_group_counts)
    finally show ?thesis .
  next
    case False
    then have "filter (\<lambda>r. weekday r = l) data = []" by (auto simp: filter_empty_conv)
    moreover from False have "sum_list (map cell_count (?row l)) = 0" by simp
    ultimately show ?thesis by simp
  qed
  have "grid_total (heatmap_of data) = sum_list (map (\<lambda>l. sum_list (map cell_count (?row l))) weekdays)"
    unfolding grid_total_def by (subst heatmap_of_values) (simp only: map_map comp_def)
  also have "\<dots> = sum_list (map (\<lambda>l. length (filter (\<lambda>r. weekday r = l) data)) weekdays)"
    by (simp only: row)
  also have "\<dots> = length data"
    using distinct_weekdays assms by (rule sum_list_counts)
  finally show ?thesis .
qed

lemma period_labels_atmost_24:
  assumes "\<forall>r\<in>set data. hour r < 24"
  shows "length (hm_columns (heatmap_of data)) \<le> 24"
proof -
  let ?cols = "hm_columns (heatmap_of data)"
  have "distinct ?cols" by (simp add: heatmap_of_shape)
  then have "length ?cols = card (set ?cols)" by (simp add: distinct_card)
  also have "set ?cols \<subseteq> period ` {..<24}"
    using assms by (auto simp: heatmap_of_shape)
  then have "card (set ?cols) \<le> card (period ` {..<24::nat})"
    by (intro card_mono) simp_all
  also have "\<dots> \<le> card {..<24::nat}" by (rule card_image_le) simp
  finally show ?thesis by simp
qed

lemma parsed_rows:
  assumes "r \<in> set (preprocess raw)"
  shows "weekday r \<in> set weekdays" and "hour r < 24"
proof -
  from assms obtain x where x: "x \<in> set (raw_records raw)"
      "(case x of (d, u, m) \<Rightarrow> map_option (\<lambda>ts. add_features ts u m) (to_datetime d)) = Some r"
    unfolding preprocess_def by (blast dest: map_filter_mem)
  obtain d u m where dum: "x = (d, u, m)" by (cases x) auto
  with x(2) obtain ts where ts: "to_datetime d = Some ts" "r = add_features ts u m" by auto
  have "(toordinal ts + 6) mod 7 < length weekdays" by (simp add: length_weekdays)
  then have "weekdays ! ((toordinal ts + 6) mod 7) \<in> set weekdays" by (rule nth_mem)
  with ts(2) show "weekday r \<in> set weekdays" by (simp add: day_name_def)
  from ts(1) have "ts_hour ts \<le> 23"
    by (auto simp: to_datetime_def num_field_def split: option.splits prod.splits if_splits)
  with ts(2) show "hour r < 24" by simp
qed


text \<open>
  C2 (as amended). The grid of \<open>activity_heatmap\<close> has the seven weekday rows, Monday
  to Sunday. Its columns are the labels \<open>"H-(H+1)%24"\<close> of the hours that occur in the
  selected rows, each once, in the order of the labels as strings: at most 24 when the
  hours are below 24, not always 24. Every row has one cell per column. The row of a
  weekday that occurs holds, per column, the number of selected messages of that
  weekday and hour, 0 where there is none. When the weekdays of the table are day
  names, as those of a parsed table are, the numbers of the grid add up to the message
  count of \<open>fetch_stats\<close>.
\<close>

theorem activity_heatmap_grid:
  "hm_index (activity_heatmap u df) = weekdays
   \<and> length (hm_values (activity_heatmap u df)) = 7
   \<and> hm_columns (activity_heatmap u df)
       = sort (remdups (map (\<lambda>r. period (hour r)) (select_user u df)))
   \<and> (\<forall>row\<in>set (hm_values (activity_heatmap u df)).
         length row = length (hm_columns (activity_heatmap u df)))
   \<and> (\<forall>i<7. weekdays ! i \<in> weekday ` set (select_user u df) \<longrightarrow>
         hm_values (activity_heatmap u df) ! i
           = map (\<lambda>p. Num (length (filter (\<lambda>r. weekday r = weekdays ! i \<and> period (hour r) = p)
                                      (select_user u df))))
               (hm_columns (activity_heatmap u df)))
   \<and> ((\<forall>r\<in>set df. hour r < 24) \<longrightarrow> length (hm_columns (activity_heatmap u df)) \<le> 24)
   \<and> ((\<forall>r\<in>set df. weekday r \<in> set weekdays) \<longrightarrow>
         grid_total (activity_heatmap u df) = fst (fetch_stats find_urls u dt df))"
proof -
  let ?data = "select_user u df"
  have sub: "set ?data \<subseteq> set df" by (auto simp: select_user_def)
  have 1: "hm_index (activity_heatmap u df) = weekdays"
    by (simp add: activity_heatmap_def heatmap_of_shape)
  have 2: "length (hm_values (activity_heatmap u df)) = 7"
    by (simp add: activity_heatmap_def heatmap_of_values length_weekdays)
  have 3: "hm_columns (activity_heatmap u df)
       = sort (remdups (map (\<lambda>r. period (hour r)) ?data))"
    by (simp add: activity_heatmap_def heatmap_of_shape)
  have 4: "\<forall>row\<in>set (hm_values (activity_heatmap u df)).
         length row = length (hm_columns (activity_heatmap u df))"
    unfolding activity_heatmap_def by (subst heatmap_of_values) auto
  have 5: "\<forall>i<7. weekdays ! i \<in> weekday ` set ?data \<longrightarrow>
         hm_values (activity_heatmap u df) ! i
           = map (\<lambda>p. Num (length (filter (\<lambda>r. weekday r = weekdays ! i \<and> period (hour r) = p)
                                      ?data)))
               (hm_columns (activity_heatmap u df))"
    unfolding activity_heatmap_def by (subst heatmap_of_values) (simp add: length_weekdays)
  have 6: "(\<forall>r\<in>set df. hour r < 24) \<longrightarrow> length (hm_columns (activity_heatmap u df)) \<le> 24"
    unfolding activity_heatmap_def using sub by (blast intro: period_labels_atmost_24)
  have 7: "(\<forall>r\<in>set df. weekday r \<in> set weekdays) \<longrightarrow>
         grid_total (activity_heatmap u df) = fst (fetch_stats find_urls u dt df)"
    unfolding activity_heatmap_def fst_fetch_stats using sub
    by (blast intro: heatmap_of_total)
  from 1 2 3 4 5 6 7 show ?thesis by (intro conjI) assumption+
qed

lemma example_table_heatmap:
  "activity_heatmap ''Overall'' example_table =
     \<lparr>hm_index = weekdays, hm_columns = [''9-10''],
      hm_values = [[NaN], [NaN], [NaN], [NaN], [NaN], [NaN], [Num 3]]\<rparr>"
  by code_simp

theorem activity_heatmap_grid_witness:
  "hm_index (activity_heatmap ''Overall'' (preprocess example_chat)) = weekdays
   \<and> length (hm_columns (activity_heatmap ''Overall'' (preprocess example_chat))) \<le> 24
   \<and> grid_total (activity_heatmap ''Overall'' (preprocess example_chat)) = 3"
proof -
  have h: "\<forall>r\<in>set (preprocess example_chat). hour r < 24"
    and w: "\<forall>r\<in>set (preprocess example_chat). weekday r \<in> set weekdays"
    using parsed_rows by blast+
  have n: "fst (fetch_stats dot_tokens ''Overall'' str_dtype (preprocess example_chat)) = 3"
    by (simp add: fst_fetch_stats select_user_Overall example_chat_table example_table_def)
  note th = activity_heatmap_grid [where u = "''Overall''" and df = "preprocess example_chat"
      and find_urls = dot_tokens]
  from th have "hm_index (activity_heatmap ''Overall'' (preprocess example_chat)) = weekdays"
    by (rule conjunct1)
  moreover from th h
  have "length (hm_columns (activity_heatmap ''Overall'' (preprocess example_chat))) \<le> 24"
    by blast
  moreover from th w
  have "grid_total (activity_heatmap ''Overall'' (preprocess example_chat))
      = fst (fetch_stats dot_tokens ''Overall'' str_dtype (preprocess example_chat))"
    by blast
  ultimately show ?thesis using n by simp
qed

text \<open>
  The example's three messages are of a Sunday between 9 and 10: the grid has the one
  column \<open>9-10\<close>, and the rows of the other weekdays hold \<open>NaN\<close>.
\<close>

theorem heatmap_of_example_has_one_column:
  "hm_columns (activity_heatmap ''Overall'' (preprocess example_chat)) = [''9-10'']
   \<and> hm_values (activity_heatmap ''Overall'' (preprocess example_chat))
       = [[NaN], [NaN], [NaN], [NaN], [NaN], [NaN], [Num 3]]"
  by (simp add: example_chat_table example_table_heatmap)

end
